theory Spec2Isabelle
  imports
    Complex_Main
    "HOL-Library.Char_ord"
    "HOL-Library.List_Lexorder"
    "HOL-Library.Product_Lexorder"
    "HOL-Library.Multiset"
    "HOL-Library.Sublist"
    "HOL-Library.AList"
begin

section \<open>Conventions of the embedding\<close>

text \<open>
  The four core components of the code-RAG pipeline are embedded function by function:
  \<^item> \<^verbatim>\<open>src/context/context_assembler.py\<close> (ContextAssembler),
  \<^item> \<^verbatim>\<open>src/search/hybrid_search.py\<close> (HybridSearchEngine, MultiLevelSearch),
  \<^item> \<^verbatim>\<open>src/indexing/incremental_indexer.py\<close> (IncrementalIndexer),
  \<^item> \<^verbatim>\<open>src/chunking/ast_chunker.py\<close> (CodeChunk, ASTChunker).

  Python \<^verbatim>\<open>int\<close> is \<^typ>\<open>int\<close>; \<^verbatim>\<open>Optional[T]\<close> is \<^typ>\<open>'a option\<close>. A dataclass is a
  record whose field names carry a short prefix of the class name, because several
  classes share field names. An exception that escapes a function is the \<open>Inl\<close> branch
  of its result. Injected collaborators and library calls whose result the source does
  not determine (tokenizer, embedding functions, vector store client and its request
  constructors, parser, hash function) are parameters.

  Three readings bound what the embedding covers:
  \<^item> \<^verbatim>\<open>str\<close> is \<^typ>\<open>string\<close> and the texts are ASCII: on ASCII text \<^verbatim>\<open>str.lower\<close>,
    \<^verbatim>\<open>str.strip\<close> and \<^verbatim>\<open>str.split\<close> are the functions defined below, while on other
    text Python also maps non-ASCII letters and treats U+0085 and U+00A0 as white space;
  \<^item> \<^verbatim>\<open>float\<close> scores are exact reals: two products that differ only by rounding in
    the source are equal here, so an order between such scores is not the source's; the
    general theorems below do not depend on the order of scores, and the concrete inputs
    use scores that are far apart;
  \<^item> in the indexer's world the calls to the store (count, delete, scroll, upsert)
    return; the chunker and the embedder may raise.
\<close>

datatype error =
    ValueError string
  | ZeroDivisionError
  | AttributeError
  | TypeError
  | UnboundLocalError
  | ValidationError
  | CollaboratorError string

subsection \<open>Python built-ins used by the source\<close>

text \<open>\<^verbatim>\<open>xs[:n]\<close>: a negative bound counts from the end.\<close>

definition slice_to :: "int \<Rightarrow> 'a list \<Rightarrow> 'a list" where
  "slice_to n xs =
     (if 0 \<le> n then take (nat n) xs else take (length xs - nat (- n)) xs)"

text \<open>\<^verbatim>\<open>xs[-n:]\<close> for a positive constant \<open>n\<close>: the last \<open>n\<close> elements.\<close>

definition last_n :: "nat \<Rightarrow> 'a list \<Rightarrow> 'a list" where
  "last_n n xs = drop (length xs - n) xs"

text \<open>\<^verbatim>\<open>sorted(xs, key=k, reverse=True)\<close> is stable: equal keys keep their order.\<close>

definition sorted_desc :: "('a \<Rightarrow> real) \<Rightarrow> 'a list \<Rightarrow> 'a list" where
  "sorted_desc k xs = sort_key (\<lambda>x. - k x) xs"

text \<open>
  \<^verbatim>\<open>str.lower\<close>, on the ASCII letters: an upper-case letter gets bit \<open>0x20\<close> set
  (that is, 32 added to its code).
\<close>

definition lower_char :: "char \<Rightarrow> char" where
  "lower_char c =
     (if CHR ''A'' \<le> c \<and> c \<le> CHR ''Z''
      then (case c of Char b0 b1 b2 b3 b4 b5 b6 b7 \<Rightarrow> Char b0 b1 b2 b3 b4 True b6 b7)
      else c)"

definition lower :: "string \<Rightarrow> string" where
  "lower s = map lower_char s"

text \<open>\<^verbatim>\<open>needle in haystack\<close> on strings: substring test.\<close>

fun str_in :: "string \<Rightarrow> string \<Rightarrow> bool" where
  "str_in needle [] = (needle = [])"
| "str_in needle (h # hs) = (prefix needle (h # hs) \<or> str_in needle hs)"

text \<open>Truthiness of an \<^verbatim>\<open>Optional[str]\<close>: neither \<^verbatim>\<open>None\<close> nor empty.\<close>

fun truthy :: "string option \<Rightarrow> bool" where
  "truthy None = False"
| "truthy (Some s) = (s \<noteq> [])"

text \<open>\<^verbatim>\<open>s or ""\<close>.\<close>

fun or_empty :: "string option \<Rightarrow> string" where
  "or_empty None = []"
| "or_empty (Some s) = s"

text \<open>\<^verbatim>\<open>str(n)\<close> for an integer: its decimal digits.\<close>

fun str_nat :: "nat \<Rightarrow> string" where
  "str_nat n =
     (if n < 10 then [''0123456789'' ! n]
      else str_nat (n div 10) @ [''0123456789'' ! (n mod 10)])"

declare str_nat.simps [simp del]

definition str_int :: "int \<Rightarrow> string" where
  "str_int i = (if i < 0 then ''-'' @ str_nat (nat (- i)) else str_nat (nat i))"

text \<open>
  A \<^verbatim>\<open>dict\<close> whose iteration order matters is an association list in insertion
  order: \<^const>\<open>AList.update\<close> overwrites a present key in place and appends a new one.
\<close>

definition dict_get :: "('k \<times> 'v) list \<Rightarrow> 'k \<Rightarrow> 'v \<Rightarrow> 'v" where
  "dict_get d k dflt = (case map_of d k of None \<Rightarrow> dflt | Some v \<Rightarrow> v)"

section \<open>Search results (hybrid_search.py, SearchResult)\<close>

text \<open>
  The payload stored with a point. The source reads it with \<^verbatim>\<open>payload.get(key, default)\<close>;
  an absent key is \<open>None\<close> here.
\<close>

record payload =
  pl_content :: "string option"
  pl_file_path :: "string option"
  pl_start_line :: "int option"
  pl_end_line :: "int option"
  pl_symbol_name :: "string option"
  pl_chunk_type :: "string option"

definition empty_payload :: payload where
  "empty_payload =
     \<lparr> pl_content = None, pl_file_path = None, pl_start_line = None, pl_end_line = None,
       pl_symbol_name = None, pl_chunk_type = None \<rparr>"

record search_result =
  sr_id :: string
  sr_score :: real
  sr_content :: string
  sr_file_path :: string
  sr_start_line :: int
  sr_end_line :: int
  sr_symbol_name :: "string option"
  sr_chunk_type :: "string option"
  sr_payload :: payload

text \<open>\<^verbatim>\<open>SearchResult.overlaps_with\<close>\<close>

definition overlaps_with :: "search_result \<Rightarrow> search_result \<Rightarrow> bool" where
  "overlaps_with self other =
     (if sr_file_path self \<noteq> sr_file_path other then False
      else \<not> (sr_end_line self < sr_start_line other \<or> sr_start_line self > sr_end_line other))"

section \<open>Context assembler (context_assembler.py)\<close>

datatype ContextPriority = CRITICAL | HIGH | MEDIUM | LOW | BACKGROUND

fun priority_value :: "ContextPriority \<Rightarrow> real" where
  "priority_value CRITICAL = 1.0"
| "priority_value HIGH = 0.8"
| "priority_value MEDIUM = 0.6"
| "priority_value LOW = 0.4"
| "priority_value BACKGROUND = 0.2"

record context_chunk =
  cc_content :: string
  cc_file_path :: string
  cc_start_line :: int
  cc_end_line :: int
  cc_priority :: ContextPriority
  cc_relevance_score :: real
  cc_token_count :: int
  cc_symbol_name :: "string option"
  cc_chunk_type :: "string option"
  cc_is_definition :: bool

definition effective_score :: "context_chunk \<Rightarrow> real" where
  "effective_score c = cc_relevance_score c * priority_value (cc_priority c)"

record assembled_context =
  ac_chunks :: "context_chunk list"
  ac_total_tokens :: int
  ac_budget_used :: real
  ac_files_included :: nat
  ac_symbols_included :: nat
  ac_truncated_chunks :: int

text \<open>The tiktoken encoding held by the assembler: an injected collaborator.\<close>

record tokenizer =
  encode :: "string \<Rightarrow> nat list"
  decode :: "nat list \<Rightarrow> string"

record context_assembler =
  max_tokens :: int
  reserve_tokens :: int
  tokenizer :: tokenizer

definition count_tokens :: "context_assembler \<Rightarrow> string \<Rightarrow> int" where
  "count_tokens self text = int (length (encode (tokenizer self) text))"

definition is_definition_type :: "string option \<Rightarrow> bool" where
  "is_definition_type t = (t \<in> {Some ''function'', Some ''class'', Some ''method''})"

definition determine_priority :: "search_result \<Rightarrow> string \<Rightarrow> ContextPriority" where
  "determine_priority result query =
     (if truthy (sr_symbol_name result)
         \<and> str_in (lower (or_empty (sr_symbol_name result))) (lower query) then CRITICAL
      else if is_definition_type (sr_chunk_type result) then HIGH
      else if sr_score result > 0.8 then HIGH
      else if sr_score result > 0.6 then MEDIUM
      else LOW)"

definition create_chunk :: "context_assembler \<Rightarrow> string \<Rightarrow> search_result \<Rightarrow> context_chunk" where
  "create_chunk self query result =
     \<lparr> cc_content = sr_content result,
       cc_file_path = sr_file_path result,
       cc_start_line = sr_start_line result,
       cc_end_line = sr_end_line result,
       cc_priority = determine_priority result query,
       cc_relevance_score = sr_score result,
       cc_token_count = count_tokens self (sr_content result),
       cc_symbol_name = sr_symbol_name result,
       cc_chunk_type = sr_chunk_type result,
       cc_is_definition = is_definition_type (sr_chunk_type result) \<rparr>"

definition create_chunks ::
  "context_assembler \<Rightarrow> search_result list \<Rightarrow> string \<Rightarrow> context_chunk list" where
  "create_chunks self search_results query = map (create_chunk self query) search_results"

text \<open>\<^verbatim>\<open>_add_definitions\<close> is a stub in the source: it returns its argument.\<close>

definition add_definitions :: "context_chunk list \<Rightarrow> context_chunk list" where
  "add_definitions chunks = chunks"

definition chunks_overlap :: "context_chunk \<Rightarrow> context_chunk \<Rightarrow> bool" where
  "chunks_overlap a b =
     (if cc_file_path a \<noteq> cc_file_path b then False
      else \<not> (cc_end_line a < cc_start_line b \<or> cc_start_line a > cc_end_line b))"

definition chunk_contains :: "context_chunk \<Rightarrow> context_chunk \<Rightarrow> bool" where
  "chunk_contains outer inner =
     (if cc_file_path outer \<noteq> cc_file_path inner then False
      else cc_start_line outer \<le> cc_start_line inner \<and> cc_end_line outer \<ge> cc_end_line inner)"

text \<open>
  The inner loop of \<^verbatim>\<open>_deduplicate\<close>: it walks the kept chunks, stops at the first one
  that overlaps \<open>chunk\<close>, and there replaces it by \<open>chunk\<close> when \<open>chunk\<close> contains it.
  The result is the flag \<^verbatim>\<open>overlaps\<close> and the kept list.
\<close>

fun scan_existing ::
  "context_chunk \<Rightarrow> context_chunk list \<Rightarrow> context_chunk list \<Rightarrow> bool \<times> context_chunk list" where
  "scan_existing chunk deduplicated [] = (False, deduplicated)"
| "scan_existing chunk deduplicated (existing # rest) =
     (if chunks_overlap chunk existing then
        (True, if chunk_contains chunk existing
               then remove1 existing deduplicated @ [chunk]
               else deduplicated)
      else scan_existing chunk deduplicated rest)"

definition dedup_step :: "context_chunk list \<Rightarrow> context_chunk \<Rightarrow> context_chunk list" where
  "dedup_step deduplicated chunk =
     (case scan_existing chunk deduplicated deduplicated of
        (overlaps, deduplicated') \<Rightarrow>
          if \<not> overlaps then deduplicated' @ [chunk] else deduplicated')"

definition deduplicate :: "context_chunk list \<Rightarrow> context_chunk list" where
  "deduplicate chunks =
     (if chunks = [] then chunks
      else foldl dedup_step [] (sorted_desc effective_score chunks))"

definition truncate_chunk :: "context_assembler \<Rightarrow> context_chunk \<Rightarrow> int \<Rightarrow> context_chunk" where
  "truncate_chunk self chunk max_toks =
     (let tokens = encode (tokenizer self) (cc_content chunk);
          truncated_tokens = slice_to (max_toks - 10) tokens;
          truncated_content = decode (tokenizer self) truncated_tokens
                              @ [CHR 0x0A] @ ''... (truncated)''
      in chunk \<lparr> cc_content := truncated_content, cc_token_count := max_toks \<rparr>)"

text \<open>
  The loop of \<^verbatim>\<open>_apply_budget\<close> over the state
  \<open>(used_tokens, selected, truncated_count)\<close>.
\<close>

fun budget_loop ::
  "context_assembler \<Rightarrow> int \<Rightarrow> context_chunk list \<Rightarrow> int \<times> context_chunk list \<times> int
     \<Rightarrow> int \<times> context_chunk list \<times> int" where
  "budget_loop self available_tokens [] st = st"
| "budget_loop self available_tokens (chunk # chunks) (used_tokens, selected, truncated_count) =
     (if used_tokens \<ge> available_tokens then (used_tokens, selected, truncated_count)
      else
        let remaining = available_tokens - used_tokens in
        if cc_token_count chunk \<le> remaining then
          budget_loop self available_tokens chunks
            (used_tokens + cc_token_count chunk, selected @ [chunk], truncated_count)
        else if remaining > 100 then
          let truncated = truncate_chunk self chunk remaining in
          budget_loop self available_tokens chunks
            (used_tokens + cc_token_count truncated, selected @ [truncated], truncated_count + 1)
        else
          budget_loop self available_tokens chunks (used_tokens, selected, truncated_count))"

record budget_stats =
  st_total_tokens :: int
  st_budget_used :: real
  st_files :: nat
  st_symbols :: nat
  st_truncated :: int

definition apply_budget ::
  "context_assembler \<Rightarrow> context_chunk list \<Rightarrow> error + (context_chunk list \<times> budget_stats)" where
  "apply_budget self chunks =
     (let available_tokens = max_tokens self - reserve_tokens self in
      case budget_loop self available_tokens chunks (0, [], 0) of
        (used_tokens, selected, truncated_count) \<Rightarrow>
          let unique_files = length (remdups (map cc_file_path selected));
              unique_symbols =
                length (remdups (map cc_symbol_name (filter (\<lambda>c. truthy (cc_symbol_name c)) selected)))
          in if max_tokens self = 0 then Inl ZeroDivisionError
             else Inr (selected,
                       \<lparr> st_total_tokens = used_tokens,
                         st_budget_used = real_of_int used_tokens / real_of_int (max_tokens self),
                         st_files = unique_files,
                         st_symbols = unique_symbols,
                         st_truncated = truncated_count \<rparr>))"

definition order_for_prompt :: "context_chunk list \<Rightarrow> context_chunk list" where
  "order_for_prompt chunks =
     (let definitions = filter cc_is_definition chunks;
          non_definitions = filter (\<lambda>c. \<not> cc_is_definition c) chunks
      in sort_key (\<lambda>c. (cc_file_path c, or_empty (cc_symbol_name c))) definitions
         @ sorted_desc effective_score non_definitions)"

definition assemble ::
  "context_assembler \<Rightarrow> search_result list \<Rightarrow> string \<Rightarrow> bool \<Rightarrow> bool \<Rightarrow> error + assembled_context" where
  "assemble self search_results query include_definitions include_file_context =
     (let chunks = create_chunks self search_results query;
          chunks = (if include_definitions then add_definitions chunks else chunks);
          chunks = deduplicate chunks;
          chunks = sorted_desc effective_score chunks
      in case apply_budget self chunks of
           Inl e \<Rightarrow> Inl e
         | Inr (selected_chunks, stats) \<Rightarrow>
             Inr \<lparr> ac_chunks = order_for_prompt selected_chunks,
                   ac_total_tokens = st_total_tokens stats,
                   ac_budget_used = st_budget_used stats,
                   ac_files_included = st_files stats,
                   ac_symbols_included = st_symbols stats,
                   ac_truncated_chunks = st_truncated stats \<rparr>)"


section \<open>Hybrid search engine (hybrid_search.py)\<close>

datatype SearchMode = SEMANTIC | KEYWORD | HYBRID | EXACT

record search_query =
  sq_text :: string
  sq_mode :: SearchMode
  sq_limit :: int
  sq_min_score :: real
  sq_file_paths :: "string list option"
  sq_languages :: "string list option"
  sq_symbol_types :: "string list option"
  sq_exclude_paths :: "string list option"
  sq_with_payload :: bool
  sq_with_vectors :: bool
  sq_rerank :: bool
  sq_deduplicate :: bool

text \<open>The defaults of the dataclass \<^verbatim>\<open>SearchQuery\<close>.\<close>

definition default_query :: "string \<Rightarrow> search_query" where
  "default_query text =
     \<lparr> sq_text = text, sq_mode = HYBRID, sq_limit = 10, sq_min_score = 0.5,
       sq_file_paths = None, sq_languages = None, sq_symbol_types = None,
       sq_exclude_paths = None, sq_with_payload = True, sq_with_vectors = False,
       sq_rerank = True, sq_deduplicate = True \<rparr>"

subsection \<open>The store's query interface\<close>

datatype match_cond = MatchAny "string list" | MatchValue string

record field_condition =
  fc_key :: string
  fc_match :: match_cond

record query_filter =
  must :: "field_condition list option"
  must_not :: "field_condition list option"

datatype vector_query =
    DenseVector "real list"
  | SparseVector "int list" "real list"
  | FusionRRF

record prefetch =
  pf_query :: vector_query
  pf_using :: string
  pf_limit :: int
  pf_filter :: "query_filter option"

record query_request =
  qr_prefetch :: "prefetch list"
  qr_query :: vector_query
  qr_using :: "string option"
  qr_limit :: int
  qr_filter :: "query_filter option"
  qr_with_payload :: bool
  qr_with_vectors :: bool

text \<open>A point as the store returns it; \<^verbatim>\<open>payload\<close> is \<^verbatim>\<open>None\<close> when it was not asked for.\<close>

record scored_point =
  sp_id :: string
  sp_score :: real
  sp_payload :: "payload option"

text \<open>
  The Qdrant client is an external collaborator: its two entry points used by the engine
  are functions of the request, and either may raise. \<^verbatim>\<open>fusion_query\<close> is what the
  library's \<^verbatim>\<open>Query(fusion=Fusion.RRF)\<close> evaluates to: a query value, or the exception it
  raises where the library's \<^verbatim>\<open>Query\<close> cannot be instantiated.
\<close>

record qdrant_client =
  fusion_query :: "error + vector_query"
  query_points :: "string \<Rightarrow> query_request \<Rightarrow> error + scored_point list"
  scroll :: "string \<Rightarrow> query_filter \<Rightarrow> int \<Rightarrow> bool \<Rightarrow> error + scored_point list"

record hybrid_search_engine =
  client :: qdrant_client
  embed :: "string \<Rightarrow> real list"
  sparse_embed :: "(string \<Rightarrow> int list \<times> real list) option"
  rerank :: "(string \<Rightarrow> string list \<Rightarrow> real list) option"

text \<open>\<^verbatim>\<open>if xs:\<close> on an optional list: neither \<^verbatim>\<open>None\<close> nor empty.\<close>

fun nonempty :: "'a list option \<Rightarrow> bool" where
  "nonempty None = False"
| "nonempty (Some xs) = (xs \<noteq> [])"

fun opt_list :: "'a list option \<Rightarrow> 'a list" where
  "opt_list None = []"
| "opt_list (Some xs) = xs"

definition build_filters :: "search_query \<Rightarrow> query_filter option" where
  "build_filters query =
     (let conditions =
            (if nonempty (sq_file_paths query)
             then [\<lparr> fc_key = ''file_path'', fc_match = MatchAny (opt_list (sq_file_paths query)) \<rparr>]
             else [])
            @ (if nonempty (sq_languages query)
               then [\<lparr> fc_key = ''language'', fc_match = MatchAny (opt_list (sq_languages query)) \<rparr>]
               else [])
            @ (if nonempty (sq_symbol_types query)
               then [\<lparr> fc_key = ''chunk_type'', fc_match = MatchAny (opt_list (sq_symbol_types query)) \<rparr>]
               else []);
          must_not_conds =
            (if nonempty (sq_exclude_paths query)
             then map (\<lambda>path. \<lparr> fc_key = ''file_path'', fc_match = MatchValue path \<rparr>)
                      (opt_list (sq_exclude_paths query))
             else [])
      in if conditions = [] \<and> must_not_conds = [] then None
         else Some \<lparr> must = (if conditions \<noteq> [] then Some conditions else None),
                     must_not = (if must_not_conds \<noteq> [] then Some must_not_conds else None) \<rparr>)"

text \<open>
  One point of \<^verbatim>\<open>_convert_results\<close>: \<^verbatim>\<open>p.payload.get\<close> raises AttributeError on a
  point without payload.
\<close>

definition convert_point :: "real \<Rightarrow> scored_point \<Rightarrow> error + search_result" where
  "convert_point score p =
     (case sp_payload p of
        None \<Rightarrow> Inl AttributeError
      | Some pl \<Rightarrow>
          Inr \<lparr> sr_id = sp_id p,
                sr_score = score,
                sr_content = or_empty (pl_content pl),
                sr_file_path = or_empty (pl_file_path pl),
                sr_start_line = (case pl_start_line pl of None \<Rightarrow> 0 | Some n \<Rightarrow> n),
                sr_end_line = (case pl_end_line pl of None \<Rightarrow> 0 | Some n \<Rightarrow> n),
                sr_symbol_name = pl_symbol_name pl,
                sr_chunk_type = pl_chunk_type pl,
                sr_payload = pl \<rparr>)"

text \<open>A list comprehension whose body may raise: the first exception escapes.\<close>

fun collect :: "('a \<Rightarrow> error + 'b) \<Rightarrow> 'a list \<Rightarrow> error + 'b list" where
  "collect f [] = Inr []"
| "collect f (x # xs) =
     (case f x of
        Inl e \<Rightarrow> Inl e
      | Inr y \<Rightarrow> (case collect f xs of Inl e \<Rightarrow> Inl e | Inr ys \<Rightarrow> Inr (y # ys)))"

definition convert_results :: "scored_point list \<Rightarrow> error + search_result list" where
  "convert_results points = collect (\<lambda>p. convert_point (sp_score p) p) points"

definition hybrid_search ::
  "hybrid_search_engine \<Rightarrow> search_query \<Rightarrow> string \<Rightarrow> query_filter option
     \<Rightarrow> error + search_result list" where
  "hybrid_search self query collection filter_conditions =
     (let dense_vector = embed self (sq_text query);
          prefetch_queries =
            [\<lparr> pf_query = DenseVector dense_vector, pf_using = ''dense'',
               pf_limit = sq_limit query * 3, pf_filter = filter_conditions \<rparr>]
            @ (case sparse_embed self of
                 None \<Rightarrow> []
               | Some sparse \<Rightarrow>
                   (case sparse (sq_text query) of
                      (indices, vals) \<Rightarrow>
                        [\<lparr> pf_query = SparseVector indices vals, pf_using = ''sparse'',
                           pf_limit = sq_limit query * 3, pf_filter = filter_conditions \<rparr>]))
      in case fusion_query (client self) of
           Inl e \<Rightarrow> Inl e
         | Inr fusion \<Rightarrow>
             (case query_points (client self) collection
                     \<lparr> qr_prefetch = prefetch_queries, qr_query = fusion, qr_using = None,
                       qr_limit = sq_limit query * 2, qr_filter = None,
                       qr_with_payload = sq_with_payload query,
                       qr_with_vectors = sq_with_vectors query \<rparr> of
                Inl e \<Rightarrow> Inl e
              | Inr points \<Rightarrow> convert_results points))"

definition semantic_search ::
  "hybrid_search_engine \<Rightarrow> search_query \<Rightarrow> string \<Rightarrow> query_filter option
     \<Rightarrow> error + search_result list" where
  "semantic_search self query collection filter_conditions =
     (let dense_vector = embed self (sq_text query)
      in case query_points (client self) collection
                \<lparr> qr_prefetch = [], qr_query = DenseVector dense_vector, qr_using = Some ''dense'',
                  qr_limit = sq_limit query * 2, qr_filter = filter_conditions,
                  qr_with_payload = sq_with_payload query, qr_with_vectors = False \<rparr> of
           Inl e \<Rightarrow> Inl e
         | Inr points \<Rightarrow> convert_results points)"

definition keyword_search ::
  "hybrid_search_engine \<Rightarrow> search_query \<Rightarrow> string \<Rightarrow> query_filter option
     \<Rightarrow> error + search_result list" where
  "keyword_search self query collection filter_conditions =
     (case sparse_embed self of
        None \<Rightarrow> Inl (ValueError ''Sparse embedding function not configured'')
      | Some sparse \<Rightarrow>
          (case sparse (sq_text query) of
             (indices, vals) \<Rightarrow>
               (case query_points (client self) collection
                       \<lparr> qr_prefetch = [], qr_query = SparseVector indices vals,
                         qr_using = Some ''sparse'', qr_limit = sq_limit query * 2,
                         qr_filter = filter_conditions,
                         qr_with_payload = sq_with_payload query, qr_with_vectors = False \<rparr> of
                  Inl e \<Rightarrow> Inl e
                | Inr points \<Rightarrow> convert_results points)))"

definition exact_search ::
  "hybrid_search_engine \<Rightarrow> search_query \<Rightarrow> string \<Rightarrow> query_filter option
     \<Rightarrow> error + search_result list" where
  "exact_search self query collection filter_conditions =
     (let name_condition = \<lparr> fc_key = ''symbol_name'', fc_match = MatchValue (lower (sq_text query)) \<rparr>;
          combined_filter =
            (case filter_conditions of
               Some fc \<Rightarrow>
                 \<lparr> must = Some (if nonempty (must fc) then opt_list (must fc) @ [name_condition]
                                else [name_condition]),
                   must_not = None \<rparr>
             | None \<Rightarrow> \<lparr> must = Some [name_condition], must_not = None \<rparr>)
      in case scroll (client self) collection combined_filter (sq_limit query)
                (sq_with_payload query) of
           Inl e \<Rightarrow> Inl e
         | Inr points \<Rightarrow> collect (convert_point 1.0) points)"

text \<open>
  \<^verbatim>\<open>_rerank_results\<close>: \<^verbatim>\<open>zip\<close> stops at the shorter list, so results beyond the new
  scores keep their old score; then a stable descending sort.
\<close>

fun update_scores :: "search_result list \<Rightarrow> real list \<Rightarrow> search_result list" where
  "update_scores [] new_scores = []"
| "update_scores (result # results) [] = result # results"
| "update_scores (result # results) (score # new_scores) =
     result \<lparr> sr_score := score \<rparr> # update_scores results new_scores"

definition rerank_results ::
  "(string \<Rightarrow> string list \<Rightarrow> real list) \<Rightarrow> string \<Rightarrow> search_result list \<Rightarrow> search_result list" where
  "rerank_results rerank_fn query_text results =
     (if results = [] then results
      else let documents = map sr_content results;
               new_scores = rerank_fn query_text documents
           in sorted_desc sr_score (update_scores results new_scores))"

fun dedup_results_loop :: "search_result list \<Rightarrow> search_result list \<Rightarrow> search_result list" where
  "dedup_results_loop deduplicated [] = deduplicated"
| "dedup_results_loop deduplicated (result # results) =
     (let overlaps = list_ex (\<lambda>existing. overlaps_with result existing) deduplicated
      in dedup_results_loop (if \<not> overlaps then deduplicated @ [result] else deduplicated) results)"

definition deduplicate_results :: "search_result list \<Rightarrow> search_result list" where
  "deduplicate_results results =
     (if results = [] then results else dedup_results_loop [] results)"

definition search ::
  "hybrid_search_engine \<Rightarrow> search_query \<Rightarrow> string \<Rightarrow> error + search_result list" where
  "search self query collection =
     (let filter_conditions = build_filters query in
      case (case sq_mode query of
              EXACT \<Rightarrow> exact_search self query collection filter_conditions
            | KEYWORD \<Rightarrow> keyword_search self query collection filter_conditions
            | SEMANTIC \<Rightarrow> semantic_search self query collection filter_conditions
            | HYBRID \<Rightarrow> hybrid_search self query collection filter_conditions) of
        Inl e \<Rightarrow> Inl e
      | Inr results \<Rightarrow>
          let results = (case rerank self of
                           Some rerank_fn \<Rightarrow>
                             if sq_rerank query \<and> length results > 1
                             then rerank_results rerank_fn (sq_text query) results
                             else results
                         | None \<Rightarrow> results);
              results = (if sq_deduplicate query then deduplicate_results results else results);
              results = filter (\<lambda>r. sr_score r \<ge> sq_min_score query) results
          in Inr (slice_to (sq_limit query) results))"

subsection \<open>MultiLevelSearch._merge_results\<close>

definition result_key :: "search_result \<Rightarrow> string" where
  "result_key result = sr_file_path result @ '':'' @ str_int (sr_start_line result)"

text \<open>
  The two accumulation loops over \<^verbatim>\<open>enumerate(...)\<close>; the state is the pair of
  dictionaries \<open>(rrf_scores, all_results)\<close>, \<open>rank\<close> is the running index from 0, and
  \<open>k = 60\<close>.
\<close>

fun merge_symbols ::
  "nat \<Rightarrow> search_result list \<Rightarrow> (string \<times> real) list \<times> (string \<times> search_result) list
     \<Rightarrow> (string \<times> real) list \<times> (string \<times> search_result) list" where
  "merge_symbols rank [] st = st"
| "merge_symbols rank (result # symbols) (rrf_scores, all_results) =
     (let score = 1.0 / (60 + real rank);
          key = result_key result
      in merge_symbols (rank + 1) symbols
           (AList.update key (dict_get rrf_scores key 0 + score * 1.2) rrf_scores,
            AList.update key result all_results))"

fun merge_semantic ::
  "nat \<Rightarrow> search_result list \<Rightarrow> (string \<times> real) list \<times> (string \<times> search_result) list
     \<Rightarrow> (string \<times> real) list \<times> (string \<times> search_result) list" where
  "merge_semantic rank [] st = st"
| "merge_semantic rank (result # semantic) (rrf_scores, all_results) =
     (let score = 1.0 / (60 + real rank);
          key = result_key result
      in merge_semantic (rank + 1) semantic
           (AList.update key (dict_get rrf_scores key 0 + score) rrf_scores,
            if key \<notin> fst ` set all_results then AList.update key result all_results
            else all_results))"

text \<open>
  The final loop indexes both dictionaries by keys taken from \<^verbatim>\<open>rrf_scores\<close>; every such
  key is in \<^verbatim>\<open>all_results\<close>, so no KeyError arises and absent keys are skipped here.
\<close>

definition merge_results ::
  "search_result list \<Rightarrow> search_result list \<Rightarrow> int \<Rightarrow> search_result list" where
  "merge_results symbols semantic limit =
     (case merge_semantic 0 semantic (merge_symbols 0 symbols ([], [])) of
        (rrf_scores, all_results) \<Rightarrow>
          let sorted_keys = sorted_desc (\<lambda>k. dict_get rrf_scores k 0) (map fst rrf_scores)
          in concat (map (\<lambda>key. case map_of all_results key of
                                  None \<Rightarrow> []
                                | Some result \<Rightarrow> [result \<lparr> sr_score := dict_get rrf_scores key 0 \<rparr>])
                         (slice_to limit sorted_keys)))"


section \<open>Code chunks (ast_chunker.py, CodeChunk)\<close>

datatype ChunkType = FILE | MODULE | CLASS | METHOD | FUNCTION | BLOCK | PATTERN

text \<open>\<^verbatim>\<open>ChunkType.value\<close>\<close>

fun chunk_type_value :: "ChunkType \<Rightarrow> string" where
  "chunk_type_value FILE = ''file''"
| "chunk_type_value MODULE = ''module''"
| "chunk_type_value CLASS = ''class''"
| "chunk_type_value METHOD = ''method''"
| "chunk_type_value FUNCTION = ''function''"
| "chunk_type_value BLOCK = ''block''"
| "chunk_type_value PATTERN = ''pattern''"

record code_chunk =
  ck_id :: string
  ck_file_path :: string
  ck_chunk_type :: ChunkType
  ck_start_line :: int
  ck_end_line :: int
  ck_start_byte :: int
  ck_end_byte :: int
  ck_content :: string
  ck_docstring :: "string option"
  ck_symbol_name :: "string option"
  ck_parent_symbol :: "string option"
  ck_signature :: "string option"
  ck_imports :: "string list"
  ck_calls :: "string list"
  ck_dependencies :: "string list"
  ck_language :: string
  ck_complexity :: int
  ck_tokens_estimate :: int


section \<open>AST chunker (ast_chunker.py)\<close>

subsection \<open>String operations of the chunker\<close>

text \<open>\<^verbatim>\<open>s[a:b]\<close> for offsets \<open>0 \<le> a\<close>, \<open>0 \<le> b\<close>.\<close>

definition substr :: "string \<Rightarrow> nat \<Rightarrow> nat \<Rightarrow> string" where
  "substr s a b = take (b - a) (drop a s)"

definition newline :: char where
  "newline = CHR 0x0A"

text \<open>\<^verbatim>\<open>s.split(sep)\<close> for a one-character separator: always at least one part.\<close>

fun split_on :: "char \<Rightarrow> string \<Rightarrow> string list" where
  "split_on sep [] = [[]]"
| "split_on sep (c # cs) =
     (if c = sep then [] # split_on sep cs
      else (case split_on sep cs of
              [] \<Rightarrow> [[c]]
            | part # parts \<Rightarrow> (c # part) # parts))"

text \<open>\<^verbatim>\<open>sep.join(parts)\<close>\<close>

fun join :: "string \<Rightarrow> string list \<Rightarrow> string" where
  "join sep [] = []"
| "join sep [part] = part"
| "join sep (part # next_part # parts) = part @ sep @ join sep (next_part # parts)"

text \<open>The ASCII characters that \<^verbatim>\<open>str.strip()\<close> and \<^verbatim>\<open>str.split()\<close> treat as white space.\<close>

definition is_space :: "char \<Rightarrow> bool" where
  "is_space c =
     (c = CHR '' '' \<or> (CHR 0x09 \<le> c \<and> c \<le> CHR 0x0D) \<or> (CHR 0x1C \<le> c \<and> c \<le> CHR 0x1F))"

text \<open>\<^verbatim>\<open>s.strip(chars)\<close>, \<^verbatim>\<open>s.rstrip()\<close> and \<^verbatim>\<open>s.strip()\<close>\<close>

definition strip_where :: "(char \<Rightarrow> bool) \<Rightarrow> string \<Rightarrow> string" where
  "strip_where P s = rev (dropWhile P (rev (dropWhile P s)))"

definition rstrip :: "string \<Rightarrow> string" where
  "rstrip s = rev (dropWhile is_space (rev s))"

definition strip :: "string \<Rightarrow> string" where
  "strip s = strip_where is_space s"

text \<open>\<^verbatim>\<open>len(line.split())\<close>: the number of maximal runs of non-space characters.\<close>

fun word_count :: "string \<Rightarrow> nat" where
  "word_count [] = 0"
| "word_count [c] = (if is_space c then 0 else 1)"
| "word_count (c # d # cs) =
     (if \<not> is_space c \<and> is_space d then 1 else 0) + word_count (d # cs)"

definition startswith :: "string \<Rightarrow> string \<Rightarrow> bool" where
  "startswith s pre = prefix pre s"

text \<open>The two docstring delimiters, three double quotes and three single quotes.\<close>

definition triple_double :: string where
  "triple_double = [CHR 0x22, CHR 0x22, CHR 0x22]"

definition triple_single :: string where
  "triple_single = [CHR 0x27, CHR 0x27, CHR 0x27]"

text \<open>\<^verbatim>\<open>Path.name\<close>: the final component of a path.\<close>

definition path_name :: "string \<Rightarrow> string" where
  "path_name p = rev (takeWhile (\<lambda>c. c \<noteq> CHR ''/'') (rev p))"

text \<open>An \<^verbatim>\<open>Optional[str]\<close> inside an f-string: \<^verbatim>\<open>None\<close> prints as \<^verbatim>\<open>None\<close>.\<close>

fun str_opt :: "string option \<Rightarrow> string" where
  "str_opt None = ''None''"
| "str_opt (Some s) = s"

subsection \<open>The parse tree\<close>

text \<open>
  A tree-sitter node: its type, byte range, first and last row, source text and
  children. Offsets into \<^verbatim>\<open>content\<close> count characters, as the source's slices do.
\<close>

datatype node =
  Node (nd_type: string) (nd_start_byte: nat) (nd_end_byte: nat)
       (nd_start_row: nat) (nd_end_row: nat) (nd_text: string) (nd_children: "node list")

text \<open>
  The chunker with its collaborators: the tree-sitter parser (the root node of a
  content), \<^verbatim>\<open>hashlib.sha256(...).hexdigest()\<close>, and the order in which \<^verbatim>\<open>list(set(...))\<close>
  yields the elements of a set of strings, which varies with the hash seed of the process.
\<close>

record ast_chunker =
  source_language :: string
  parser :: "string \<Rightarrow> node"
  sha256_hex :: "string \<Rightarrow> string"
  set_order :: "string list \<Rightarrow> string list"

definition MAX_CHUNK_TOKENS :: int where
  "MAX_CHUNK_TOKENS = 512"

definition OVERLAP_LINES :: nat where
  "OVERLAP_LINES = 3"

text \<open>\<^verbatim>\<open>CodeChunk.compute_id\<close>\<close>

definition compute_id :: "(string \<Rightarrow> string) \<Rightarrow> code_chunk \<Rightarrow> string" where
  "compute_id sha c =
     (let content_hash =
            take 16 (sha (ck_file_path c @ '':'' @ str_opt (ck_symbol_name c) @ '':'' @ ck_content c))
      in chunk_type_value (ck_chunk_type c) @ ''_'' @ content_hash)"

text \<open>The constructor \<^verbatim>\<open>CodeChunk(...)\<close> with the defaults of the dataclass.\<close>

definition new_chunk ::
  "ast_chunker \<Rightarrow> string \<Rightarrow> ChunkType \<Rightarrow> int \<Rightarrow> int \<Rightarrow> int \<Rightarrow> int \<Rightarrow> string \<Rightarrow> code_chunk" where
  "new_chunk self file_path chunk_type start_line end_line start_byte end_byte content =
     \<lparr> ck_id = [], ck_file_path = file_path, ck_chunk_type = chunk_type,
       ck_start_line = start_line, ck_end_line = end_line,
       ck_start_byte = start_byte, ck_end_byte = end_byte, ck_content = content,
       ck_docstring = None, ck_symbol_name = None, ck_parent_symbol = None, ck_signature = None,
       ck_imports = [], ck_calls = [], ck_dependencies = [], ck_language = source_language self,
       ck_complexity = 0, ck_tokens_estimate = 0 \<rparr>"

subsection \<open>Helper methods\<close>

fun find_nodes :: "node \<Rightarrow> string \<Rightarrow> node list" where
  "find_nodes (Node ty sb eb sr er tx children) node_type =
     (if ty = node_type then [Node ty sb eb sr er tx children] else [])
     @ concat (map (\<lambda>child. find_nodes child node_type) children)"

definition node_source :: "node \<Rightarrow> string \<Rightarrow> string" where
  "node_source n content = substr content (nd_start_byte n) (nd_end_byte n)"

definition get_node_name :: "node \<Rightarrow> string \<Rightarrow> string" where
  "get_node_name n content =
     (case find (\<lambda>child. nd_type child = ''identifier'') (nd_children n) of
        Some child \<Rightarrow> node_source child content
      | None \<Rightarrow> ''unknown'')"

definition extract_docstring :: "node \<Rightarrow> string \<Rightarrow> string option" where
  "extract_docstring n content =
     (case find (\<lambda>child. nd_type child = ''block'') (nd_children n) of
        None \<Rightarrow> None
      | Some body \<Rightarrow>
          (case nd_children body of
             [] \<Rightarrow> None
           | first_stmt # others \<Rightarrow>
               if nd_type first_stmt = ''expression_statement'' then
                 (case nd_children first_stmt of
                    [] \<Rightarrow> None
                  | expr # others \<Rightarrow>
                      if nd_type expr = ''string'' then
                        Some (strip (strip_where (\<lambda>c. c = CHR 0x27)
                                (strip_where (\<lambda>c. c = CHR 0x22) (node_source expr content))))
                      else None)
               else None))"

definition get_function_signature :: "node \<Rightarrow> string \<Rightarrow> string" where
  "get_function_signature n content =
     (case find (\<lambda>child. nd_type child = ''parameters'') (nd_children n) of
        Some child \<Rightarrow> ''def '' @ get_node_name n content @ node_source child content
      | None \<Rightarrow> [])"

definition get_class_signature :: "node \<Rightarrow> string \<Rightarrow> string" where
  "get_class_signature n content =
     (let name = get_node_name n content
      in case find (\<lambda>child. nd_type child = ''argument_list'') (nd_children n) of
           Some child \<Rightarrow> ''class '' @ name @ node_source child content
         | None \<Rightarrow> ''class '' @ name)"

definition get_class_header :: "node \<Rightarrow> string \<Rightarrow> string" where
  "get_class_header n content =
     (case find_nodes n ''function_definition'' of
        child # others \<Rightarrow> rstrip (substr content (nd_start_byte n) (nd_start_byte child))
      | [] \<Rightarrow> node_source n content)"

text \<open>\<^verbatim>\<open>_extract_imports\<close>: per top-level node, the names it contributes.\<close>

definition imports_of :: "node \<Rightarrow> string \<Rightarrow> string list" where
  "imports_of n content =
     (if nd_type n = ''import_statement'' then
        map (\<lambda>child. node_source child content)
            (filter (\<lambda>child. nd_type child = ''dotted_name'') (nd_children n))
      else if nd_type n = ''import_from_statement'' then
        (case find (\<lambda>child. nd_type child = ''dotted_name'') (nd_children n) of
           Some child \<Rightarrow>
             (if node_source child content \<noteq> [] then [node_source child content] else [])
         | None \<Rightarrow> [])
      else [])"

definition extract_imports :: "node \<Rightarrow> string \<Rightarrow> string list" where
  "extract_imports root_node content = concat (map (\<lambda>n. imports_of n content) (nd_children root_node))"

text \<open>
  \<^verbatim>\<open>_extract_calls\<close>. The loop state is the list of calls and the local \<^verbatim>\<open>last_id\<close>,
  unbound at first; appending an unbound \<^verbatim>\<open>last_id\<close> raises. The result is
  \<^verbatim>\<open>list(set(calls))\<close>.
\<close>

fun calls_loop ::
  "string \<Rightarrow> node list \<Rightarrow> string list \<times> string option \<Rightarrow> error + string list" where
  "calls_loop content [] st = Inr (fst st)"
| "calls_loop content (call_node # rest) (calls, last_id) =
     (case nd_children call_node of
        [] \<Rightarrow> calls_loop content rest (calls, last_id)
      | func # others \<Rightarrow>
          if nd_type func = ''identifier'' then
            calls_loop content rest (calls @ [node_source func content], last_id)
          else if nd_type func = ''attribute'' then
            (let last_id' =
                   (case filter (\<lambda>child. nd_type child = ''identifier'') (nd_children func) of
                      [] \<Rightarrow> last_id
                    | ids \<Rightarrow> Some (node_source (last ids) content))
             in case last_id' of
                  None \<Rightarrow> Inl UnboundLocalError
                | Some name \<Rightarrow> calls_loop content rest (calls @ [name], last_id'))
          else calls_loop content rest (calls, last_id))"

definition extract_calls :: "ast_chunker \<Rightarrow> node \<Rightarrow> string \<Rightarrow> error + string list" where
  "extract_calls self n content =
     (case calls_loop content (find_nodes n ''call'') ([], None) of
        Inl e \<Rightarrow> Inl e
      | Inr calls \<Rightarrow> Inr (set_order self (remdups calls)))"

text \<open>\<^verbatim>\<open>_collect_symbols\<close>: the dictionary with the keys classes, functions, methods.\<close>

record symbols =
  sy_classes :: "string list"
  sy_functions :: "string list"
  sy_methods :: "(string \<times> string list) list"

definition method_names :: "node \<Rightarrow> string list" where
  "method_names class_node =
     concat (map (\<lambda>method. case find (\<lambda>mchild. nd_type mchild = ''identifier'') (nd_children method) of
                              Some mchild \<Rightarrow> [nd_text mchild]
                            | None \<Rightarrow> [])
                 (find_nodes class_node ''function_definition''))"

definition collect_symbol :: "symbols \<Rightarrow> node \<Rightarrow> symbols" where
  "collect_symbol syms n =
     (if nd_type n = ''class_definition'' then
        (case find (\<lambda>child. nd_type child = ''identifier'') (nd_children n) of
           Some child \<Rightarrow>
             syms \<lparr> sy_classes := sy_classes syms @ [nd_text child],
                    sy_methods := AList.update (nd_text child) (method_names n) (sy_methods syms) \<rparr>
         | None \<Rightarrow> syms)
      else if nd_type n = ''function_definition'' then
        (case find (\<lambda>child. nd_type child = ''identifier'') (nd_children n) of
           Some child \<Rightarrow> syms \<lparr> sy_functions := sy_functions syms @ [nd_text child] \<rparr>
         | None \<Rightarrow> syms)
      else syms)"

definition collect_symbols :: "node \<Rightarrow> symbols" where
  "collect_symbols root_node =
     foldl collect_symbol \<lparr> sy_classes = [], sy_functions = [], sy_methods = [] \<rparr> (nd_children root_node)"

definition generate_file_description :: "string \<Rightarrow> symbols \<Rightarrow> string list \<Rightarrow> string" where
  "generate_file_description file_path syms imports =
     join [newline]
       ([''File: '' @ path_name file_path, ''Path: '' @ file_path, []]
        @ (if imports \<noteq> [] then [''Imports: '' @ join '', '' (take 10 imports)] else [])
        @ (if sy_classes syms \<noteq> [] then
             [''Classes: '' @ join '', '' (sy_classes syms)]
             @ concat (map (\<lambda>(cls, methods).
                              if methods \<noteq> []
                              then [''  '' @ cls @ '' methods: '' @ join '', '' (take 10 methods)]
                              else [])
                           (sy_methods syms))
           else [])
        @ (if sy_functions syms \<noteq> [] then [''Functions: '' @ join '', '' (sy_functions syms)]
           else []))"

definition estimate_tokens :: "string \<Rightarrow> int" where
  "estimate_tokens text = int (length text) div 4"

subsection \<open>The four extraction steps\<close>

definition create_file_chunk :: "ast_chunker \<Rightarrow> string \<Rightarrow> string \<Rightarrow> node \<Rightarrow> code_chunk" where
  "create_file_chunk self file_path content root_node =
     (let syms = collect_symbols root_node;
          imports = extract_imports root_node content;
          description = generate_file_description file_path syms imports
      in (new_chunk self file_path FILE 0
            (int (length (filter (\<lambda>c. c = newline) content))) 0 (int (length content)) description)
           \<lparr> ck_imports := imports \<rparr>)"

text \<open>
  The loop of \<^verbatim>\<open>_extract_module_chunk\<close> over the top-level nodes, up to the first class
  or function definition; the state is \<open>(module_parts, end_line)\<close>.
\<close>

fun module_loop :: "string \<Rightarrow> node list \<Rightarrow> string list \<times> nat \<Rightarrow> string list \<times> nat" where
  "module_loop content [] st = st"
| "module_loop content (child # rest) (module_parts, end_line) =
     (if nd_type child = ''expression_statement'' then
        (case nd_children child of
           [] \<Rightarrow> module_loop content rest (module_parts, end_line)
         | expr # others \<Rightarrow>
             if nd_type expr = ''string''
             then module_loop content rest
                    (module_parts @ [node_source child content], max end_line (nd_end_row child))
             else module_loop content rest (module_parts, end_line))
      else if nd_type child \<in> {''import_statement'', ''import_from_statement''} then
        module_loop content rest
          (module_parts @ [node_source child content], max end_line (nd_end_row child))
      else if nd_type child \<in> {''function_definition'', ''class_definition''} then
        (module_parts, end_line)
      else module_loop content rest (module_parts, end_line))"

definition extract_module_chunk ::
  "ast_chunker \<Rightarrow> string \<Rightarrow> string \<Rightarrow> node \<Rightarrow> code_chunk option" where
  "extract_module_chunk self file_path content root_node =
     (case module_loop content (nd_children root_node) ([], 0) of
        (module_parts, end_line) \<Rightarrow>
          if module_parts = [] then None
          else Some (new_chunk self file_path MODULE 0 (int end_line) 0
                       (case nd_children root_node of [] \<Rightarrow> 0 | first # others \<Rightarrow> int (nd_end_byte first))
                       (join [newline] module_parts)))"

definition method_chunk :: "ast_chunker \<Rightarrow> string \<Rightarrow> string \<Rightarrow> string \<Rightarrow> node \<Rightarrow> code_chunk" where
  "method_chunk self file_path content class_name method_node =
     (new_chunk self file_path METHOD (int (nd_start_row method_node)) (int (nd_end_row method_node))
        (int (nd_start_byte method_node)) (int (nd_end_byte method_node))
        (node_source method_node content))
       \<lparr> ck_symbol_name := Some (get_node_name method_node content),
         ck_parent_symbol := Some class_name,
         ck_docstring := extract_docstring method_node content,
         ck_signature := Some (get_function_signature method_node content) \<rparr>"

definition class_chunks :: "ast_chunker \<Rightarrow> string \<Rightarrow> string \<Rightarrow> node \<Rightarrow> code_chunk list" where
  "class_chunks self file_path content n =
     (let class_name = get_node_name n content;
          class_content = node_source n content;
          docstring = extract_docstring n content
      in if estimate_tokens class_content \<le> MAX_CHUNK_TOKENS then
           [(new_chunk self file_path CLASS (int (nd_start_row n)) (int (nd_end_row n))
               (int (nd_start_byte n)) (int (nd_end_byte n)) class_content)
              \<lparr> ck_symbol_name := Some class_name,
                ck_docstring := docstring,
                ck_signature := Some (get_class_signature n content) \<rparr>]
         else
           (let class_header = get_class_header n content
            in (new_chunk self file_path CLASS (int (nd_start_row n))
                  (int (nd_start_row n) + int (length (filter (\<lambda>c. c = newline) class_header)))
                  (int (nd_start_byte n)) (int (nd_start_byte n) + int (length class_header))
                  class_header)
                 \<lparr> ck_symbol_name := Some class_name,
                   ck_docstring := docstring,
                   ck_signature := Some (get_class_signature n content) \<rparr>
               # map (method_chunk self file_path content class_name)
                     (find_nodes n ''function_definition'')))"

definition extract_classes :: "ast_chunker \<Rightarrow> string \<Rightarrow> string \<Rightarrow> node \<Rightarrow> code_chunk list" where
  "extract_classes self file_path content root_node =
     concat (map (class_chunks self file_path content) (find_nodes root_node ''class_definition''))"

text \<open>
  The first loop of \<^verbatim>\<open>_split_large_function\<close>, which finds the signature and the
  docstring; the result is \<open>(header_lines, body_start_idx)\<close>, and \<open>body_start_idx\<close> is
  still 0 when the loop ends without \<^verbatim>\<open>break\<close>.
\<close>

fun header_loop :: "nat \<Rightarrow> string list \<Rightarrow> string list \<Rightarrow> bool \<Rightarrow> string list \<times> nat" where
  "header_loop i [] header_lines in_docstring = (header_lines, 0)"
| "header_loop i (line # rest) header_lines in_docstring =
     (let header_lines = header_lines @ [line]
      in if str_in triple_double line \<or> str_in triple_single line then
           (if in_docstring then (header_lines, i + 1)
            else header_loop (i + 1) rest header_lines True)
         else if i = 0 then header_loop (i + 1) rest header_lines in_docstring
         else if \<not> in_docstring \<and> strip line \<noteq> [] \<and> \<not> startswith (strip line) ''#''
         then (butlast header_lines, i)
         else header_loop (i + 1) rest header_lines in_docstring)"

definition line_tokens :: "string \<Rightarrow> nat" where
  "line_tokens line = word_count line + 1"

definition block_chunk ::
  "ast_chunker \<Rightarrow> string \<Rightarrow> string \<Rightarrow> nat \<Rightarrow> int \<Rightarrow> int \<Rightarrow> string list \<Rightarrow> code_chunk" where
  "block_chunk self file_path func_name block_idx start_line end_line current_block =
     (new_chunk self file_path BLOCK start_line end_line 0 0
        (''# Part of '' @ func_name @ [newline] @ join [newline] current_block))
       \<lparr> ck_symbol_name := Some (func_name @ ''_block_'' @ str_nat block_idx),
         ck_parent_symbol := Some func_name \<rparr>"

text \<open>
  The second loop, over the body lines; the state is
  \<open>(chunks, current_block, current_tokens, block_idx)\<close>.
\<close>

fun block_loop ::
  "ast_chunker \<Rightarrow> string \<Rightarrow> string \<Rightarrow> nat \<Rightarrow> nat \<Rightarrow> nat \<Rightarrow> string list
     \<Rightarrow> code_chunk list \<times> string list \<times> nat \<times> nat
     \<Rightarrow> code_chunk list \<times> string list \<times> nat \<times> nat" where
  "block_loop self file_path func_name start_row body_start_idx i [] st = st"
| "block_loop self file_path func_name start_row body_start_idx i (line # rest)
       (chunks, current_block, current_tokens, block_idx) =
     (if current_tokens + line_tokens line > 400 \<and> current_block \<noteq> [] then
        (let block_start = int start_row + int body_start_idx + int i - int (length current_block);
             chunk = block_chunk self file_path func_name block_idx block_start
                       (block_start + int (length current_block)) current_block;
             overlap = last_n OVERLAP_LINES current_block
         in block_loop self file_path func_name start_row body_start_idx (i + 1) rest
              (chunks @ [chunk], overlap @ [line],
               sum_list (map line_tokens overlap) + line_tokens line, block_idx + 1))
      else
        block_loop self file_path func_name start_row body_start_idx (i + 1) rest
          (chunks, current_block @ [line], current_tokens + line_tokens line, block_idx))"

definition split_large_function ::
  "ast_chunker \<Rightarrow> string \<Rightarrow> node \<Rightarrow> string \<Rightarrow> string \<Rightarrow> code_chunk list" where
  "split_large_function self file_path n content func_name =
     (let func_content = node_source n content;
          lines = split_on newline func_content
      in case header_loop 0 lines [] False of
           (header_lines, body_start_idx) \<Rightarrow>
             let header_content = join [newline] header_lines;
                 header =
                   (new_chunk self file_path FUNCTION (int (nd_start_row n))
                      (int (nd_start_row n) + int (length header_lines))
                      (int (nd_start_byte n)) (int (nd_start_byte n) + int (length header_content))
                      header_content)
                     \<lparr> ck_symbol_name := Some func_name,
                       ck_signature := Some (get_function_signature n content) \<rparr>;
                 body_lines = drop body_start_idx lines
             in case block_loop self file_path func_name (nd_start_row n) body_start_idx 0 body_lines
                       ([header], [], 0, 0) of
                  (chunks, current_block, current_tokens, block_idx) \<Rightarrow>
                    if current_block \<noteq> [] then
                      chunks @ [block_chunk self file_path func_name block_idx
                                  (int (nd_end_row n) - int (length current_block))
                                  (int (nd_end_row n)) current_block]
                    else chunks)"

text \<open>The chunks of one top-level node in \<^verbatim>\<open>_extract_functions\<close>.\<close>

definition function_chunks ::
  "ast_chunker \<Rightarrow> string \<Rightarrow> string \<Rightarrow> node \<Rightarrow> error + code_chunk list" where
  "function_chunks self file_path content n =
     (if nd_type n \<noteq> ''function_definition'' then Inr []
      else
        let func_name = get_node_name n content;
            func_content = node_source n content;
            docstring = extract_docstring n content
        in if estimate_tokens func_content > MAX_CHUNK_TOKENS then
             Inr (split_large_function self file_path n content func_name)
           else
             (case extract_calls self n content of
                Inl e \<Rightarrow> Inl e
              | Inr calls \<Rightarrow>
                  Inr [(new_chunk self file_path FUNCTION (int (nd_start_row n)) (int (nd_end_row n))
                          (int (nd_start_byte n)) (int (nd_end_byte n)) func_content)
                         \<lparr> ck_symbol_name := Some func_name,
                           ck_docstring := docstring,
                           ck_signature := Some (get_function_signature n content),
                           ck_calls := calls \<rparr>]))"

definition extract_functions ::
  "ast_chunker \<Rightarrow> string \<Rightarrow> string \<Rightarrow> node \<Rightarrow> error + code_chunk list" where
  "extract_functions self file_path content root_node =
     (case collect (function_chunks self file_path content) (nd_children root_node) of
        Inl e \<Rightarrow> Inl e
      | Inr chunk_lists \<Rightarrow> Inr (concat chunk_lists))"

subsection \<open>chunk_file\<close>

text \<open>The last loop of \<^verbatim>\<open>chunk_file\<close>: the id, then the token estimate, of each chunk.\<close>

definition finalize_chunk :: "ast_chunker \<Rightarrow> code_chunk \<Rightarrow> code_chunk" where
  "finalize_chunk self chunk =
     (let chunk = chunk \<lparr> ck_id := compute_id (sha256_hex self) chunk \<rparr>
      in chunk \<lparr> ck_tokens_estimate := estimate_tokens (ck_content chunk) \<rparr>)"

text \<open>
  \<^verbatim>\<open>chunk_file\<close>, from the content that \<^verbatim>\<open>file_path.read_text\<close> returned.
\<close>

definition chunk_file :: "ast_chunker \<Rightarrow> string \<Rightarrow> string \<Rightarrow> error + code_chunk list" where
  "chunk_file self file_path content =
     (let root_node = parser self content;
          file_chunk = create_file_chunk self file_path content root_node;
          module_chunk = extract_module_chunk self file_path content root_node;
          class_chunk_list = extract_classes self file_path content root_node
      in case extract_functions self file_path content root_node of
           Inl e \<Rightarrow> Inl e
         | Inr function_chunk_list \<Rightarrow>
             let chunks = [file_chunk]
                          @ (case module_chunk of Some c \<Rightarrow> [c] | None \<Rightarrow> [])
                          @ class_chunk_list
                          @ function_chunk_list
             in Inr (map (finalize_chunk self) chunks))"

section \<open>Incremental indexer (incremental_indexer.py)\<close>

datatype ChangeType = ADDED | MODIFIED | DELETED | RENAMED | COPIED

record file_change =
  ch_path :: string
  ch_change_type :: ChangeType
  ch_old_path :: "string option"
  ch_content_hash :: "string option"

text \<open>\<^verbatim>\<open>IndexState\<close>; \<^verbatim>\<open>indexed_files\<close> is a dict from path to content hash.\<close>

record index_state =
  git_commit :: string
  indexed_files :: "(string \<times> string) list"
  last_updated :: nat
  total_chunks :: int
  total_files :: int

subsection \<open>The world the indexer acts on\<close>

text \<open>The payload written by \<^verbatim>\<open>_index_file\<close> and a stored point (\<^verbatim>\<open>PointStruct\<close>).\<close>

record point_payload =
  pp_content :: string
  pp_file_path :: string
  pp_start_line :: int
  pp_end_line :: int
  pp_chunk_type :: string
  pp_symbol_name :: "string option"
  pp_parent_symbol :: "string option"
  pp_docstring :: "string option"
  pp_signature :: "string option"
  pp_language :: string
  pp_tokens :: int
  pp_git_hash :: string

record point =
  pt_id :: string
  pt_vector :: "real list"
  pt_payload :: point_payload

text \<open>
  Every call the indexer makes to a collaborator is recorded, in order: the chunker, the
  embedding function, the store client (by collection) and the file system.
\<close>

datatype event =
    Chunked string
  | Embedded string
  | Counted string string
  | Deleted string string
  | Scrolled string string
  | Upserted string "string list"
  | WriteText string string
  | Replace string string

text \<open>
  The repository's working tree, the answers of git (the current commit, the changes
  since a commit as \<^verbatim>\<open>get_changes_since\<close> returns them, the tracked files), the two
  store collections, the disk under the repository, the clock and the call log. The
  store is the in-memory reading of the narrow contract the indexer uses: upsert by id,
  count, delete and scroll by a \<^verbatim>\<open>file_path\<close> equality filter. The statistics leave out
  \<^verbatim>\<open>duration_ms\<close>, a difference of wall-clock times.
\<close>

record world =
  files :: "string \<Rightarrow> string option"
  current_commit :: string
  changes_since :: "string \<Rightarrow> file_change list"
  tracked_files :: "string list"
  code_semantic :: "point list"
  code_symbols :: "point list"
  disk :: "string \<Rightarrow> string option"
  clock :: nat
  call_log :: "event list"

record indexer =
  repo_path :: string
  chunker :: "string \<Rightarrow> string \<Rightarrow> error + code_chunk list"
  embedder :: "string \<Rightarrow> error + real list"
  sha256 :: "string \<Rightarrow> string"
  json_dumps :: "index_state \<Rightarrow> string"
  json_loads :: "string \<Rightarrow> index_state option"

definition STATE_FILE :: string where
  "STATE_FILE = ''.rag_index_state.json''"

definition SUPPORTED_EXTENSIONS :: "(string \<times> string) list" where
  "SUPPORTED_EXTENSIONS =
     [(''.py'', ''python''), (''.js'', ''javascript''), (''.ts'', ''typescript''),
      (''.tsx'', ''typescript''), (''.jsx'', ''javascript''), (''.go'', ''go''),
      (''.rs'', ''rust''), (''.java'', ''java''), (''.rb'', ''ruby''), (''.php'', ''php''),
      (''.c'', ''c''), (''.cpp'', ''cpp''), (''.h'', ''c''), (''.hpp'', ''cpp'')]"

text \<open>\<^verbatim>\<open>repo_path / file_path\<close> for a relative \<^verbatim>\<open>file_path\<close>.\<close>

definition join_path :: "string \<Rightarrow> string \<Rightarrow> string" where
  "join_path base rel = base @ ''/'' @ rel"

text \<open>\<^verbatim>\<open>s.endswith(ext)\<close>\<close>

definition endswith :: "string \<Rightarrow> string \<Rightarrow> bool" where
  "endswith s ext = prefix (rev ext) (rev s)"

text \<open>
  \<^verbatim>\<open>Path.suffix\<close>: the part of the final component from its last dot, unless that dot
  is the first or the last character of the component.
\<close>

definition path_suffix :: "string \<Rightarrow> string" where
  "path_suffix p =
     (let name = rev (takeWhile (\<lambda>c. c \<noteq> CHR ''/'') (rev p));
          after_dot = length (takeWhile (\<lambda>c. c \<noteq> CHR ''.'') (rev name))
      in if CHR ''.'' \<in> set name
            \<and> 0 < length name - after_dot - 1 \<and> 0 < after_dot
         then drop (length name - after_dot - 1) name
         else [])"

text \<open>\<^verbatim>\<open>str(e)\<close> for a caught exception.\<close>

fun error_str :: "error \<Rightarrow> string" where
  "error_str (ValueError msg) = msg"
| "error_str ZeroDivisionError = ''division by zero''"
| "error_str AttributeError = ''attribute error''"
| "error_str TypeError = ''type error''"
| "error_str UnboundLocalError = ''unbound local variable''"
| "error_str ValidationError = ''validation error''"
| "error_str (CollaboratorError msg) = msg"

subsection \<open>GitChangeDetector\<close>

definition compute_file_hash :: "indexer \<Rightarrow> world \<Rightarrow> string \<Rightarrow> string" where
  "compute_file_hash self w file_path =
     (case files w file_path of
        None \<Rightarrow> []
      | Some content \<Rightarrow> sha256 self content)"

definition get_all_tracked_files :: "world \<Rightarrow> string list \<Rightarrow> string list" where
  "get_all_tracked_files w extensions =
     (if extensions \<noteq> []
      then filter (\<lambda>f. list_ex (\<lambda>ext. endswith f ext) extensions) (tracked_files w)
      else tracked_files w)"

subsection \<open>Store client calls\<close>

definition record_event :: "event \<Rightarrow> world \<Rightarrow> world" where
  "record_event ev w = w \<lparr> call_log := call_log w @ [ev] \<rparr>"

text \<open>Upsert of one point: a point with the same id is overwritten, a new one is added.\<close>

fun upsert_point :: "point \<Rightarrow> point list \<Rightarrow> point list" where
  "upsert_point p [] = [p]"
| "upsert_point p (q # qs) = (if pt_id q = pt_id p then p # qs else q # upsert_point p qs)"

definition upsert_points :: "point list \<Rightarrow> point list \<Rightarrow> point list" where
  "upsert_points points stored = foldl (\<lambda>acc p. upsert_point p acc) stored points"

definition upsert_semantic :: "point list \<Rightarrow> world \<Rightarrow> world" where
  "upsert_semantic points w =
     record_event (Upserted ''code_semantic'' (map pt_id points))
       (w \<lparr> code_semantic := upsert_points points (code_semantic w) \<rparr>)"

definition upsert_symbols :: "point list \<Rightarrow> world \<Rightarrow> world" where
  "upsert_symbols points w =
     record_event (Upserted ''code_symbols'' (map pt_id points))
       (w \<lparr> code_symbols := upsert_points points (code_symbols w) \<rparr>)"

definition has_path :: "string \<Rightarrow> point \<Rightarrow> bool" where
  "has_path file_path p = (pp_file_path (pt_payload p) = file_path)"

subsection \<open>IncrementalIndexer\<close>

text \<open>
  \<^verbatim>\<open>_batch_embed\<close>: the texts are cut into batches of 32; \<^verbatim>\<open>asyncio.gather\<close> starts
  every call of a batch, and an exception of any of them ends the loop.
\<close>

fun embed_batches :: "string list \<Rightarrow> string list list" where
  "embed_batches texts =
     (if texts = [] then [] else take 32 texts # embed_batches (drop 32 texts))"

declare embed_batches.simps [simp del]

fun batch_embed_loop ::
  "indexer \<Rightarrow> string list list \<Rightarrow> real list list \<Rightarrow> world
     \<Rightarrow> (error + real list list) \<times> world" where
  "batch_embed_loop self [] embeddings w = (Inr embeddings, w)"
| "batch_embed_loop self (batch # rest) embeddings w =
     (let w1 = w \<lparr> call_log := call_log w @ map Embedded batch \<rparr>
      in case collect (embedder self) batch of
           Inl e \<Rightarrow> (Inl e, w1)
         | Inr batch_embeddings \<Rightarrow>
             batch_embed_loop self rest (embeddings @ batch_embeddings) w1)"

definition batch_embed ::
  "indexer \<Rightarrow> string list \<Rightarrow> world \<Rightarrow> (error + real list list) \<times> world" where
  "batch_embed self texts w = batch_embed_loop self (embed_batches texts) [] w"

definition make_point :: "world \<Rightarrow> string \<Rightarrow> string \<Rightarrow> code_chunk \<times> real list \<Rightarrow> point" where
  "make_point w file_path language ce =
     (case ce of (chunk, embedding) \<Rightarrow>
        \<lparr> pt_id = ck_id chunk,
          pt_vector = embedding,
          pt_payload =
            \<lparr> pp_content = ck_content chunk,
              pp_file_path = file_path,
              pp_start_line = ck_start_line chunk,
              pp_end_line = ck_end_line chunk,
              pp_chunk_type = chunk_type_value (ck_chunk_type chunk),
              pp_symbol_name = ck_symbol_name chunk,
              pp_parent_symbol = ck_parent_symbol chunk,
              pp_docstring = ck_docstring chunk,
              pp_signature = ck_signature chunk,
              pp_language = language,
              pp_tokens = ck_tokens_estimate chunk,
              pp_git_hash = current_commit w \<rparr> \<rparr>)"

definition is_symbol_chunk :: "code_chunk \<Rightarrow> bool" where
  "is_symbol_chunk c = (chunk_type_value (ck_chunk_type c) \<in> {''function'', ''class'', ''method''})"

definition index_file ::
  "indexer \<Rightarrow> string \<Rightarrow> world \<Rightarrow> (error + code_chunk list) \<times> world" where
  "index_file self file_path w =
     (let full_path = join_path (repo_path self) file_path in
      case files w file_path of
        None \<Rightarrow> (Inr [], w)
      | Some content \<Rightarrow>
          let ext = path_suffix full_path;
              language = dict_get SUPPORTED_EXTENSIONS ext ''unknown'';
              w1 = record_event (Chunked file_path) w
          in case chunker self full_path content of
               Inl e \<Rightarrow> (Inl e, w1)
             | Inr chunks \<Rightarrow>
                 if chunks = [] then (Inr [], w1)
                 else
                   (case batch_embed self (map ck_content chunks) w1 of
                      (Inl e, w2) \<Rightarrow> (Inl e, w2)
                    | (Inr embeddings, w2) \<Rightarrow>
                        let points = map (make_point w2 file_path language) (zip chunks embeddings);
                            w3 = upsert_semantic points w2;
                            symbol_points =
                              map fst (filter (\<lambda>pc. is_symbol_chunk (snd pc)) (zip points chunks));
                            w4 = (if symbol_points \<noteq> [] then upsert_symbols symbol_points w3 else w3)
                        in (Inr chunks, w4)))"

definition delete_file_chunks :: "string \<Rightarrow> world \<Rightarrow> int \<times> world" where
  "delete_file_chunks file_path w =
     (let deleted_count = int (length (filter (has_path file_path) (code_semantic w)));
          w1 = record_event (Counted ''code_semantic'' file_path) w;
          w2 = record_event (Deleted ''code_semantic'' file_path)
                 (w1 \<lparr> code_semantic := filter (\<lambda>p. \<not> has_path file_path p) (code_semantic w1) \<rparr>);
          w3 = record_event (Deleted ''code_symbols'' file_path)
                 (w2 \<lparr> code_symbols := filter (\<lambda>p. \<not> has_path file_path p) (code_symbols w2) \<rparr>)
      in (deleted_count, w3))"

text \<open>
  \<^verbatim>\<open>_rename_file_chunks\<close>. A \<^verbatim>\<open>None\<close> old path cannot be put into a
  \<^verbatim>\<open>MatchValue\<close>: the client rejects the filter.
\<close>

definition rename_file_chunks :: "string option \<Rightarrow> string \<Rightarrow> world \<Rightarrow> (error + unit) \<times> world" where
  "rename_file_chunks old_path new_path w =
     (case old_path of
        None \<Rightarrow> (Inl ValidationError, w)
      | Some old \<Rightarrow>
          let w1 = record_event (Scrolled ''code_semantic'' old) w;
              points = take 1000 (filter (has_path old) (code_semantic w1))
          in if points = [] then (Inr (), w1)
             else
               let updated_points =
                     map (\<lambda>p. p \<lparr> pt_payload := (pt_payload p) \<lparr> pp_file_path := new_path \<rparr> \<rparr>) points
               in (Inr (), upsert_semantic updated_points w1))"

record update_stats =
  files_added :: int
  files_modified :: int
  files_deleted :: int
  chunks_added :: int
  chunks_deleted :: int
  errors :: "string list"

text \<open>\<^verbatim>\<open>d.pop(k, default)\<close> on the dictionary of indexed files.\<close>

definition dict_pop :: "('k \<times> 'v) list \<Rightarrow> 'k \<Rightarrow> ('k \<times> 'v) list" where
  "dict_pop d k = AList.delete k d"

definition add_error :: "file_change \<Rightarrow> error \<Rightarrow> update_stats \<Rightarrow> update_stats" where
  "add_error change e stats =
     stats \<lparr> errors := errors stats @ [ch_path change @ '': '' @ error_str e] \<rparr>"

text \<open>
  The body of the loop of \<^verbatim>\<open>_incremental_update\<close> with its \<^verbatim>\<open>try/except\<close>: the state
  is \<open>(new_indexed_files, stats, world)\<close>. An exception keeps what was done before it.
\<close>

definition process_change ::
  "indexer \<Rightarrow> index_state \<Rightarrow> file_change
     \<Rightarrow> (string \<times> string) list \<times> update_stats \<times> world
     \<Rightarrow> (string \<times> string) list \<times> update_stats \<times> world" where
  "process_change self state change st =
     (case st of (new_indexed_files, stats, w) \<Rightarrow>
        (case ch_change_type change of
           DELETED \<Rightarrow>
             (case delete_file_chunks (ch_path change) w of
                (deleted, w1) \<Rightarrow>
                  (dict_pop new_indexed_files (ch_path change),
                   stats \<lparr> files_deleted := files_deleted stats + 1,
                           chunks_deleted := chunks_deleted stats + deleted \<rparr>,
                   w1))
         | ADDED \<Rightarrow>
             (case index_file self (ch_path change) w of
                (Inl e, w1) \<Rightarrow> (new_indexed_files, add_error change e stats, w1)
              | (Inr chunks, w1) \<Rightarrow>
                  let file_hash = compute_file_hash self w1 (ch_path change)
                  in (AList.update (ch_path change) file_hash new_indexed_files,
                      stats \<lparr> files_added := files_added stats + 1,
                              chunks_added := chunks_added stats + int (length chunks) \<rparr>,
                      w1))
         | MODIFIED \<Rightarrow>
             (let new_hash = compute_file_hash self w (ch_path change);
                  old_hash = map_of (indexed_files state) (ch_path change)
              in if Some new_hash \<noteq> old_hash then
                   (case delete_file_chunks (ch_path change) w of
                      (deleted, w1) \<Rightarrow>
                        let stats1 = stats \<lparr> chunks_deleted := chunks_deleted stats + deleted \<rparr>
                        in (case index_file self (ch_path change) w1 of
                              (Inl e, w2) \<Rightarrow> (new_indexed_files, add_error change e stats1, w2)
                            | (Inr chunks, w2) \<Rightarrow>
                                (AList.update (ch_path change) new_hash new_indexed_files,
                                 stats1 \<lparr> files_modified := files_modified stats1 + 1,
                                          chunks_added := chunks_added stats1 + int (length chunks) \<rparr>,
                                 w2)))
                 else (new_indexed_files, stats, w))
         | RENAMED \<Rightarrow>
             (case rename_file_chunks (ch_old_path change) (ch_path change) w of
                (Inl e, w1) \<Rightarrow> (new_indexed_files, add_error change e stats, w1)
              | (Inr u, w1) \<Rightarrow>
                  let old = (case ch_old_path change of Some p \<Rightarrow> p | None \<Rightarrow> []);
                      old_hash = dict_get new_indexed_files old [];
                      new_indexed_files1 = dict_pop new_indexed_files old
                  in (AList.update (ch_path change) old_hash new_indexed_files1,
                      stats \<lparr> files_modified := files_modified stats + 1 \<rparr>,
                      w1))
         | COPIED \<Rightarrow> (new_indexed_files, stats, w)))"

definition state_path :: "indexer \<Rightarrow> string" where
  "state_path self = join_path (repo_path self) STATE_FILE"

text \<open>\<^verbatim>\<open>_save_state\<close>: one \<^verbatim>\<open>Path.write_text\<close> onto the state file.\<close>

definition save_state_ops :: "indexer \<Rightarrow> index_state \<Rightarrow> event list" where
  "save_state_ops self state = [WriteText (state_path self) (json_dumps self state)]"

text \<open>The effect of one file-system call on the disk; other events leave it alone.\<close>

fun run_fs_op :: "event \<Rightarrow> (string \<Rightarrow> string option) \<Rightarrow> (string \<Rightarrow> string option)" where
  "run_fs_op (WriteText p d) fs = fs (p \<mapsto> d)"
| "run_fs_op (Replace src dst) fs = (fs (dst := fs src)) (src := None)"
| "run_fs_op ev fs = fs"

definition save_state :: "indexer \<Rightarrow> index_state \<Rightarrow> world \<Rightarrow> world" where
  "save_state self state w =
     foldl (\<lambda>w op. record_event op (w \<lparr> disk := run_fs_op op (disk w) \<rparr>)) w
       (save_state_ops self state)"

definition load_state :: "indexer \<Rightarrow> world \<Rightarrow> index_state option" where
  "load_state self w =
     (case disk w (state_path self) of
        None \<Rightarrow> None
      | Some text \<Rightarrow> json_loads self text)"

definition empty_update_stats :: update_stats where
  "empty_update_stats =
     \<lparr> files_added = 0, files_modified = 0, files_deleted = 0,
       chunks_added = 0, chunks_deleted = 0, errors = [] \<rparr>"

definition incremental_update ::
  "indexer \<Rightarrow> index_state \<Rightarrow> string list \<Rightarrow> world \<Rightarrow> update_stats \<times> world" where
  "incremental_update self state extensions w =
     (let changes = changes_since w (git_commit state);
          changes = filter (\<lambda>c. list_ex (\<lambda>ext. endswith (ch_path c) ext) extensions) changes
      in case foldl (\<lambda>st change. process_change self state change st)
                (indexed_files state, empty_update_stats, w) changes of
           (new_indexed_files, stats, w1) \<Rightarrow>
             let new_state =
                   \<lparr> git_commit = current_commit w1,
                     indexed_files = new_indexed_files,
                     last_updated = clock w1,
                     total_chunks = total_chunks state + chunks_added stats - chunks_deleted stats,
                     total_files = int (length new_indexed_files) \<rparr>
             in (stats, save_state self new_state w1))"

record full_stats =
  files_indexed :: int
  chunks_created :: int
  full_errors :: "string list"

definition full_index_step ::
  "indexer \<Rightarrow> string
     \<Rightarrow> (string \<times> string) list \<times> full_stats \<times> world
     \<Rightarrow> (string \<times> string) list \<times> full_stats \<times> world" where
  "full_index_step self file_path st =
     (case st of (indexed, stats, w) \<Rightarrow>
        (case index_file self file_path w of
           (Inl e, w1) \<Rightarrow>
             (indexed, stats \<lparr> full_errors := full_errors stats @ [file_path @ '': '' @ error_str e] \<rparr>, w1)
         | (Inr chunks, w1) \<Rightarrow>
             (AList.update file_path (compute_file_hash self w1 file_path) indexed,
              stats \<lparr> files_indexed := files_indexed stats + 1,
                      chunks_created := chunks_created stats + int (length chunks) \<rparr>,
              w1)))"

definition full_index :: "indexer \<Rightarrow> string list \<Rightarrow> world \<Rightarrow> full_stats \<times> world" where
  "full_index self extensions w =
     (let file_list = get_all_tracked_files w extensions
      in case foldl (\<lambda>st file_path. full_index_step self file_path st)
                ([], \<lparr> files_indexed = 0, chunks_created = 0, full_errors = [] \<rparr>, w) file_list of
           (indexed, stats, w1) \<Rightarrow>
             let state =
                   \<lparr> git_commit = current_commit w1,
                     indexed_files = indexed,
                     last_updated = clock w1,
                     total_chunks = chunks_created stats,
                     total_files = files_indexed stats \<rparr>
             in (stats, save_state self state w1))"

text \<open>
  \<^verbatim>\<open>index\<close>: an incremental pass when a state could be loaded and no full reindex is
  asked for, a full pass otherwise.
\<close>

definition index ::
  "indexer \<Rightarrow> bool \<Rightarrow> string list option \<Rightarrow> world \<Rightarrow> (update_stats + full_stats) \<times> world" where
  "index self full_reindex extensions w =
     (let extensions = (if nonempty extensions then opt_list extensions
                        else map fst SUPPORTED_EXTENSIONS);
          state = (if \<not> full_reindex then load_state self w else None)
      in case state of
           Some st \<Rightarrow> (case incremental_update self st extensions w of (stats, w1) \<Rightarrow> (Inl stats, w1))
         | None \<Rightarrow> (case full_index self extensions w of (stats, w1) \<Rightarrow> (Inr stats, w1)))"

section \<open>Notions used to state the properties\<close>

text \<open>
  A chunk \<open>c\<close> of the selection \<open>selected\<close> is either one of the candidate chunks, whole,
  or the truncation of a candidate that did not fit, cut to the remaining budget: the
  available budget \<open>max_tokens - reserve_tokens\<close> less the tokens of the other selected
  chunks. That remaining budget exceeded 100 and was below the candidate's token count.
\<close>

definition whole_or_truncated ::
  "context_assembler \<Rightarrow> context_chunk list \<Rightarrow> context_chunk list \<Rightarrow> context_chunk \<Rightarrow> bool" where
  "whole_or_truncated self src selected c =
     (c \<in> set src \<or>
      (\<exists>c0 \<in> set src.
         let remaining = (max_tokens self - reserve_tokens self)
                         - (sum_list (map cc_token_count selected) - cc_token_count c)
         in c = truncate_chunk self c0 remaining
            \<and> cc_token_count c = remaining
            \<and> 100 < remaining \<and> remaining < cc_token_count c0))"

definition chunk_span :: "context_chunk \<Rightarrow> string \<times> int \<times> int" where
  "chunk_span c = (cc_file_path c, cc_start_line c, cc_end_line c)"

text \<open>
  The contribution of one ranked list to the fused score of \<open>key\<close>: the sum of
  \<open>1 / (60 + rank)\<close> over the positions holding \<open>key\<close>, the first position having
  rank \<open>rank\<close>.
\<close>

fun rank_sum :: "nat \<Rightarrow> search_result list \<Rightarrow> string \<Rightarrow> real" where
  "rank_sum rank [] key = 0"
| "rank_sum rank (result # results) key =
     (if result_key result = key then 1 / (60 + real rank) else 0)
     + rank_sum (rank + 1) results key"

definition keyed :: "(string \<times> search_result) list \<Rightarrow> bool" where
  "keyed all_results = (\<forall>(k, r) \<in> set all_results. result_key r = k)"

fun is_fs_op :: "event \<Rightarrow> bool" where
  "is_fs_op (WriteText p d) = True"
| "is_fs_op (Replace src dst) = True"
| "is_fs_op ev = False"

fun is_embed_call :: "event \<Rightarrow> bool" where
  "is_embed_call (Embedded t) = True"
| "is_embed_call ev = False"

text \<open>
  \<open>w'\<close> arises from \<open>w\<close> by calls to the chunker, the embedder and the store only: the
  disk, the working tree and the clock are the same and no file-system call was logged.
\<close>

definition store_only :: "world \<Rightarrow> world \<Rightarrow> bool" where
  "store_only w w' =
     (disk w' = disk w \<and> files w' = files w \<and> current_commit w' = current_commit w
      \<and> clock w' = clock w
      \<and> (\<exists>evs. call_log w' = call_log w @ evs \<and> list_all (\<lambda>ev. \<not> is_fs_op ev) evs))"

fun is_replace :: "event \<Rightarrow> bool" where
  "is_replace (Replace src dst) = True"
| "is_replace ev = False"

text \<open>
  The disk when the process dies in the middle of a file-system call: \<^verbatim>\<open>write_text\<close>
  truncates the file and writes the text front to back, so the first \<open>k\<close> characters are
  there; a replace has either happened or not.
\<close>

fun interrupted :: "nat \<Rightarrow> event \<Rightarrow> (string \<Rightarrow> string option) \<Rightarrow> (string \<Rightarrow> string option)" where
  "interrupted k (WriteText p d) fs = fs (p \<mapsto> take k d)"
| "interrupted k ev fs = fs"

text \<open>A chunk without its list of calls, the one field that depends on a set's order.\<close>

definition erase_calls :: "code_chunk \<Rightarrow> code_chunk" where
  "erase_calls c = c \<lparr> ck_calls := [] \<rparr>"

section \<open>Concrete inputs\<close>

text \<open>A tokenizer with one token per character.\<close>

definition char_tokenizer :: tokenizer where
  "char_tokenizer = \<lparr> encode = map of_char, decode = map char_of \<rparr>"

text \<open>A hit of \<open>n\<close> tokens under \<^const>\<open>char_tokenizer\<close>, without symbol name.\<close>

definition hit :: "string \<Rightarrow> real \<Rightarrow> nat \<Rightarrow> string \<Rightarrow> int \<Rightarrow> int \<Rightarrow> search_result" where
  "hit ident score n path first_line last_line =
     \<lparr> sr_id = ident, sr_score = score, sr_content = replicate n (CHR ''x''),
       sr_file_path = path, sr_start_line = first_line, sr_end_line = last_line,
       sr_symbol_name = None, sr_chunk_type = Some ''block'', sr_payload = empty_payload \<rparr>"

definition assembler_1000_100 :: context_assembler where
  "assembler_1000_100 = \<lparr> max_tokens = 1000, reserve_tokens = 100, tokenizer = char_tokenizer \<rparr>"

definition assembler_500_1000 :: context_assembler where
  "assembler_500_1000 = \<lparr> max_tokens = 500, reserve_tokens = 1000, tokenizer = char_tokenizer \<rparr>"

definition hits_400_700 :: "search_result list" where
  "hits_400_700 = [hit ''h1'' 0.9 400 ''a.py'' 1 40, hit ''h2'' 0.7 700 ''b.py'' 1 70]"

text \<open>Three hits in one file: the third spans the other two and scores lowest.\<close>

definition hits_overlap :: "search_result list" where
  "hits_overlap =
     [hit ''A'' 0.9 20 ''f.py'' 1 5, hit ''B'' 0.8 20 ''f.py'' 10 15, hit ''C'' 0.7 20 ''f.py'' 1 20]"

text \<open>A chunk of \<open>n\<close> tokens as the budget packer receives it.\<close>

definition packed :: "string \<Rightarrow> real \<Rightarrow> int \<Rightarrow> context_chunk" where
  "packed path score n =
     \<lparr> cc_content = path, cc_file_path = path, cc_start_line = 1, cc_end_line = 9,
       cc_priority = MEDIUM, cc_relevance_score = score, cc_token_count = n,
       cc_symbol_name = None, cc_chunk_type = Some ''block'', cc_is_definition = False \<rparr>"

text \<open>A store that answers every request with three points of three different files.\<close>

definition stub_point :: "string \<Rightarrow> real \<Rightarrow> int \<Rightarrow> int \<Rightarrow> scored_point" where
  "stub_point name score first_line last_line =
     \<lparr> sp_id = name, sp_score = score,
       sp_payload = Some \<lparr> pl_content = Some name, pl_file_path = Some (name @ ''.py''),
                           pl_start_line = Some first_line, pl_end_line = Some last_line,
                           pl_symbol_name = Some name, pl_chunk_type = Some ''function'' \<rparr> \<rparr>"

definition stub_client :: qdrant_client where
  "stub_client =
     \<lparr> fusion_query = Inr FusionRRF,
       query_points = (\<lambda>collection request.
          Inr [stub_point ''p1'' 0.9 1 5, stub_point ''p2'' 0.7 1 5, stub_point ''p3'' 0.6 1 5]),
       scroll = (\<lambda>collection flt limit with_payload.
          Inr [stub_point ''p1'' 0.9 1 5, stub_point ''p2'' 0.7 1 5, stub_point ''p3'' 0.6 1 5]) \<rparr>"

text \<open>An engine with a dense embedding only: no sparse embedding, no reranker.\<close>

definition engine_no_sparse :: hybrid_search_engine where
  "engine_no_sparse =
     \<lparr> client = stub_client, embed = (\<lambda>text. [1]), sparse_embed = None, rerank = None \<rparr>"

definition keyword_query :: search_query where
  "keyword_query = (default_query ''parse()'') \<lparr> sq_mode := KEYWORD \<rparr>"

definition semantic_query :: search_query where
  "semantic_query = (default_query ''parse()'') \<lparr> sq_mode := SEMANTIC, sq_limit := 2 \<rparr>"

definition negative_limit_query :: search_query where
  "negative_limit_query = (default_query ''parse()'') \<lparr> sq_mode := SEMANTIC, sq_limit := - 1 \<rparr>"

text \<open>
  The rankings of the specification's fusion example: documents A to G, each a result
  of its own file.
\<close>

definition doc :: "string \<Rightarrow> search_result" where
  "doc name =
     \<lparr> sr_id = name, sr_score = 0, sr_content = [], sr_file_path = name @ ''.py'',
       sr_start_line = 1, sr_end_line = 10, sr_symbol_name = None, sr_chunk_type = None,
       sr_payload = empty_payload \<rparr>"

definition dense_ranking :: "search_result list" where
  "dense_ranking = map doc [''B'', ''A'', ''C'', ''D'', ''E'']"

definition sparse_ranking :: "search_result list" where
  "sparse_ranking = map doc [''A'', ''B'', ''E'', ''F'', ''G'']"

text \<open>
  A repository \<^verbatim>\<open>/repo\<close> with one file \<^verbatim>\<open>a.py\<close>, a chunker that makes one function
  chunk of a file's content, and an embedder that never fails.
\<close>

definition demo_chunk :: "string \<Rightarrow> string \<Rightarrow> code_chunk" where
  "demo_chunk path content =
     \<lparr> ck_id = ''function_0123456789abcdef'', ck_file_path = path,
       ck_chunk_type = FUNCTION, ck_start_line = 0, ck_end_line = 1, ck_start_byte = 0,
       ck_end_byte = int (length content), ck_content = content, ck_docstring = None,
       ck_symbol_name = Some ''f'', ck_parent_symbol = None, ck_signature = Some ''def f()'',
       ck_imports = [], ck_calls = [], ck_dependencies = [], ck_language = ''python'',
       ck_complexity = 0, ck_tokens_estimate = int (length content) div 4 \<rparr>"

definition demo_indexer :: indexer where
  "demo_indexer =
     \<lparr> repo_path = ''/repo'',
       chunker = (\<lambda>path content. Inr [demo_chunk path content]),
       embedder = (\<lambda>text. Inr [1]),
       sha256 = (\<lambda>content. ''h:'' @ content),
       json_dumps = (\<lambda>st. ''commit='' @ git_commit st),
       json_loads = (\<lambda>text. None) \<rparr>"

definition demo_world :: world where
  "demo_world =
     \<lparr> files = [''a.py'' \<mapsto> ''def f(): return 1''], current_commit = ''c1'',
       changes_since = (\<lambda>commit. []), tracked_files = [''a.py''],
       code_semantic = [], code_symbols = [],
       disk = [''/repo/.rag_index_state.json'' \<mapsto> ''commit=c0''], clock = 0, call_log = [] \<rparr>"

definition demo_state :: index_state where
  "demo_state =
     \<lparr> git_commit = ''c1'', indexed_files = [(''a.py'', ''h:def f(): return 1'')],
       last_updated = 0, total_chunks = 1, total_files = 1 \<rparr>"

text \<open>The world after \<^verbatim>\<open>a.py\<close> has been indexed.\<close>

definition indexed_world :: world where
  "indexed_world = snd (index_file demo_indexer ''a.py'' demo_world)"

text \<open>Then \<^verbatim>\<open>a.py\<close> is renamed to \<^verbatim>\<open>b.py\<close>, its content unchanged.\<close>

definition renamed_world :: world where
  "renamed_world =
     indexed_world \<lparr> files := [''b.py'' \<mapsto> ''def f(): return 1''], current_commit := ''c2'' \<rparr>"

definition rename_change :: file_change where
  "rename_change =
     \<lparr> ch_path = ''b.py'', ch_change_type = RENAMED, ch_old_path = Some ''a.py'',
       ch_content_hash = None \<rparr>"

text \<open>Or \<^verbatim>\<open>a.py\<close> is reported modified, with the same content or with a new one.\<close>

definition touch_change :: file_change where
  "touch_change =
     \<lparr> ch_path = ''a.py'', ch_change_type = MODIFIED, ch_old_path = None,
       ch_content_hash = None \<rparr>"

definition edited_world :: world where
  "edited_world =
     indexed_world \<lparr> files := [''a.py'' \<mapsto> ''def f(): return 2''], current_commit := ''c2'' \<rparr>"

text \<open>
  A three-line module: an import and a function \<^verbatim>\<open>f\<close> that calls \<^verbatim>\<open>g\<close> and \<^verbatim>\<open>h\<close>, with
  its parse tree. The stand-in for the hash is the identity, so that an id shows the
  first 16 characters of what is hashed.
\<close>

definition demo_source :: string where
  "demo_source = ''import os'' @ [newline] @ ''def f(x):'' @ [newline] @ ''    return g(h(x))''"

definition src_node :: "string \<Rightarrow> nat \<Rightarrow> nat \<Rightarrow> nat \<Rightarrow> nat \<Rightarrow> node list \<Rightarrow> node" where
  "src_node ty start_byte end_byte start_row end_row children =
     Node ty start_byte end_byte start_row end_row (substr demo_source start_byte end_byte) children"

definition demo_tree :: node where
  "demo_tree =
     src_node ''module'' 0 38 0 2
       [src_node ''import_statement'' 0 9 0 0
          [src_node ''import'' 0 6 0 0 [],
           src_node ''dotted_name'' 7 9 0 0 [src_node ''identifier'' 7 9 0 0 []]],
        src_node ''function_definition'' 10 38 1 2
          [src_node ''def'' 10 13 1 1 [],
           src_node ''identifier'' 14 15 1 1 [],
           src_node ''parameters'' 15 18 1 1 [],
           src_node '':'' 18 19 1 1 [],
           src_node ''block'' 24 38 2 2
             [src_node ''return_statement'' 24 38 2 2
                [src_node ''return'' 24 30 2 2 [],
                 src_node ''call'' 31 38 2 2
                   [src_node ''identifier'' 31 32 2 2 [],
                    src_node ''argument_list'' 32 38 2 2
                      [src_node ''call'' 33 37 2 2
                         [src_node ''identifier'' 33 34 2 2 [],
                          src_node ''argument_list'' 34 37 2 2
                            [src_node ''identifier'' 35 36 2 2 []]]]]]]]]"

definition demo_chunker :: ast_chunker where
  "demo_chunker =
     \<lparr> source_language = ''python'', parser = (\<lambda>content. demo_tree),
       sha256_hex = (\<lambda>text. text), set_order = (\<lambda>names. names) \<rparr>"

section \<open>Properties of the context assembler\<close>

subsection \<open>The budget loop\<close>

lemma budget_loop_used_bound:
  "budget_loop self av cs (u, sel, t) = (u', sel', t') \<Longrightarrow> u \<le> max 0 av \<Longrightarrow> u' \<le> max 0 av"
proof (induction cs arbitrary: u sel t)
  case Nil
  then show ?case by simp
next
  case (Cons c cs)
  show ?case
  proof (cases "u \<ge> av")
    case True
    with Cons.prems show ?thesis by simp
  next
    case False
    note nf = False
    show ?thesis
    proof (cases "cc_token_count c \<le> av - u")
      case True
      with nf Cons.prems(1)
      have "budget_loop self av cs (u + cc_token_count c, sel @ [c], t) = (u', sel', t')"
        by (simp add: Let_def)
      moreover from True have "u + cc_token_count c \<le> max 0 av" by simp
      ultimately show ?thesis by (rule Cons.IH)
    next
      case False
      note nfit = False
      show ?thesis
      proof (cases "av - u > 100")
        case True
        with nf nfit Cons.prems(1)
        have "budget_loop self av cs (u + (av - u), sel @ [truncate_chunk self c (av - u)], t + 1) = (u', sel', t')"
          by (simp add: Let_def truncate_chunk_def)
        moreover have "u + (av - u) \<le> max 0 av" by simp
        ultimately show ?thesis by (rule Cons.IH)
      next
        case False
        with nf nfit Cons.prems(1)
        have "budget_loop self av cs (u, sel, t) = (u', sel', t')"
          by (simp add: Let_def)
        then show ?thesis using Cons.prems(2) by (rule Cons.IH)
      qed
    qed
  qed
qed

lemma budget_loop_used_sum:
  "budget_loop self av cs (sum_list (map cc_token_count sel), sel, t) = (u', sel', t')
     \<Longrightarrow> u' = sum_list (map cc_token_count sel')"
proof (induction cs arbitrary: sel t)
  case Nil
  then show ?case by auto
next
  case (Cons c cs)
  let ?u = "sum_list (map cc_token_count sel)"
  show ?case
  proof (cases "?u \<ge> av")
    case True
    with Cons.prems show ?thesis by auto
  next
    case False
    note nf = False
    show ?thesis
    proof (cases "cc_token_count c \<le> av - ?u")
      case True
      with nf Cons.prems
      have "budget_loop self av cs (sum_list (map cc_token_count (sel @ [c])), sel @ [c], t) = (u', sel', t')"
        by (simp add: Let_def)
      then show ?thesis by (rule Cons.IH)
    next
      case False
      note nfit = False
      show ?thesis
      proof (cases "av - ?u > 100")
        case True
        let ?tr = "truncate_chunk self c (av - ?u)"
        have tc: "cc_token_count ?tr = av - ?u" by (simp add: truncate_chunk_def Let_def)
        from True nf nfit Cons.prems
        have "budget_loop self av cs (sum_list (map cc_token_count (sel @ [?tr])), sel @ [?tr], t + 1) = (u', sel', t')"
          by (simp add: Let_def tc)
        then show ?thesis by (rule Cons.IH)
      next
        case False
        with nf nfit Cons.prems
        have "budget_loop self av cs (?u, sel, t) = (u', sel', t')"
          by (simp add: Let_def)
        then show ?thesis by (rule Cons.IH)
      qed
    qed
  qed
qed

lemma sum_order_for_prompt:
  "sum_list (map cc_token_count (order_for_prompt cs)) = sum_list (map cc_token_count cs)"
proof -
  have "mset (order_for_prompt cs) = mset cs"
    by (simp add: order_for_prompt_def sorted_desc_def Let_def)
  then have "mset (map cc_token_count (order_for_prompt cs)) = mset (map cc_token_count cs)"
    by simp
  then have "sum_mset (mset (map cc_token_count (order_for_prompt cs))) = sum_mset (mset (map cc_token_count cs))"
    by (rule arg_cong)
  then show ?thesis by (simp only: sum_mset_sum_list)
qed

lemma set_order_for_prompt: "set (order_for_prompt cs) = set cs"
  by (auto simp: order_for_prompt_def sorted_desc_def Let_def)


lemma budget_loop_stopped:
  "used \<ge> av \<Longrightarrow> budget_loop self av cs (used, sel, t) = (used, sel, t)"
  by (cases cs) simp_all

lemma token_count_truncate_chunk [simp]:
  "cc_token_count (truncate_chunk self c n) = n"
  by (simp add: truncate_chunk_def Let_def)

text \<open>
  The selection of the loop, started without truncation: either nothing was truncated
  and every selected chunk is a candidate, or exactly one chunk was truncated; then it
  is the last one selected, it was cut to the budget that remained after the chunks
  selected before it, and the used tokens equal the available budget.
\<close>

lemma budget_loop_invariant:
  assumes "budget_loop self av cs (sum_list (map cc_token_count sel), sel, 0) = (u', sel', t')"
      and "set cs \<subseteq> set src"
      and "set sel \<subseteq> set src"
  shows "u' = sum_list (map cc_token_count sel')
         \<and> ((t' = 0 \<and> set sel' \<subseteq> set src)
            \<or> (t' = 1 \<and> u' = av
               \<and> (\<exists>pre c0. sel' = pre @ [truncate_chunk self c0 (av - sum_list (map cc_token_count pre))]
                     \<and> set pre \<subseteq> set src \<and> c0 \<in> set src
                     \<and> 100 < av - sum_list (map cc_token_count pre)
                     \<and> av - sum_list (map cc_token_count pre) < cc_token_count c0)))"
  using assms
proof (induction cs arbitrary: sel)
  case Nil
  then show ?case by auto
next
  case (Cons c cs)
  let ?u = "sum_list (map cc_token_count sel)"
  from Cons.prems(2) have csub: "set cs \<subseteq> set src" and cin: "c \<in> set src" by auto
  show ?case
  proof (cases "?u \<ge> av")
    case True
    with Cons.prems show ?thesis by auto
  next
    case False
    note nf = False
    show ?thesis
    proof (cases "cc_token_count c \<le> av - ?u")
      case True
      with nf Cons.prems(1)
      have "budget_loop self av cs (sum_list (map cc_token_count (sel @ [c])), sel @ [c], 0)
              = (u', sel', t')"
        by (simp add: Let_def)
      moreover from Cons.prems(3) cin have "set (sel @ [c]) \<subseteq> set src" by simp
      ultimately show ?thesis using csub Cons.IH by blast
    next
      case False
      note nfit = False
      show ?thesis
      proof (cases "av - ?u > 100")
        case True
        let ?tr = "truncate_chunk self c (av - ?u)"
        from True nf nfit Cons.prems(1)
        have "budget_loop self av cs (?u + (av - ?u), sel @ [?tr], 1) = (u', sel', t')"
          by (simp add: Let_def)
        moreover have "budget_loop self av cs (?u + (av - ?u), sel @ [?tr], 1)
                         = (?u + (av - ?u), sel @ [?tr], 1)"
          by (rule budget_loop_stopped) simp
        ultimately have res: "u' = av" "sel' = sel @ [?tr]" "t' = 1" by simp_all
        have "u' = sum_list (map cc_token_count sel')" by (simp add: res)
        moreover have "\<exists>pre c0. sel' = pre @ [truncate_chunk self c0 (av - sum_list (map cc_token_count pre))]
                     \<and> set pre \<subseteq> set src \<and> c0 \<in> set src
                     \<and> 100 < av - sum_list (map cc_token_count pre)
                     \<and> av - sum_list (map cc_token_count pre) < cc_token_count c0"
          using res(2) Cons.prems(3) cin True nfit by (intro exI [of _ sel] exI [of _ c]) simp
        ultimately show ?thesis using res by blast
      next
        case False
        with nf nfit Cons.prems(1)
        have "budget_loop self av cs (?u, sel, 0) = (u', sel', t')"
          by (simp add: Let_def)
        then show ?thesis using csub Cons.prems(3) Cons.IH by blast
      qed
    qed
  qed
qed

lemma budget_loop_append:
  "budget_loop self av (xs @ ys) st = budget_loop self av ys (budget_loop self av xs st)"
proof (induction xs arbitrary: st)
  case Nil
  show ?case by simp
next
  case (Cons x xs)
  obtain u sel t where st: "st = (u, sel, t)" by (cases st) auto
  show ?case
  proof (cases "u \<ge> av")
    case True
    then show ?thesis by (simp add: st budget_loop_stopped)
  next
    case False
    then show ?thesis by (simp add: st Let_def Cons.IH)
  qed
qed

lemma set_scan_existing:
  "set (snd (scan_existing chunk d rest)) \<subseteq> set d \<union> {chunk}"
proof (induction rest)
  case Nil
  show ?case by auto
next
  case (Cons e rest)
  have "set (remove1 e d) \<subseteq> set d" by (rule set_remove1_subset)
  with Cons show ?case by auto
qed

lemma set_dedup_step: "set (dedup_step d chunk) \<subseteq> set d \<union> {chunk}"
proof -
  obtain ov d' where sc: "scan_existing chunk d d = (ov, d')" by (cases "scan_existing chunk d d") auto
  from set_scan_existing [of chunk d d] sc have "set d' \<subseteq> set d \<union> {chunk}" by simp
  then show ?thesis by (auto simp: dedup_step_def sc)
qed

lemma set_foldl_dedup_step: "set (foldl dedup_step d cs) \<subseteq> set d \<union> set cs"
proof (induction cs arbitrary: d)
  case Nil
  show ?case by simp
next
  case (Cons c cs)
  have "set (foldl dedup_step (dedup_step d c) cs) \<subseteq> set (dedup_step d c) \<union> set cs"
    by (rule Cons.IH)
  also have "\<dots> \<subseteq> set d \<union> set (c # cs)" using set_dedup_step [of d c] by auto
  finally show ?case by simp
qed

lemma set_deduplicate: "set (deduplicate cs) \<subseteq> set cs"
  using set_foldl_dedup_step [of "[]" "sorted_desc effective_score cs"]
  by (simp add: deduplicate_def sorted_desc_def)


lemma assemble_returns:
  assumes "max_tokens self \<noteq> 0"
  shows "assemble self search_results query include_definitions include_file_context
           = Inr (projr (assemble self search_results query include_definitions include_file_context))"
proof -
  let ?sorted = "sorted_desc effective_score (deduplicate (create_chunks self search_results query))"
  obtain u sel t where
    loop: "budget_loop self (max_tokens self - reserve_tokens self) ?sorted (0, [], 0) = (u, sel, t)"
    by (cases "budget_loop self (max_tokens self - reserve_tokens self) ?sorted (0, [], 0)") auto
  show ?thesis
    using assms by (simp add: assemble_def add_definitions_def apply_budget_def Let_def loop)
qed

lemmas assembler_eval =
  assemble_def apply_budget_def add_definitions_def deduplicate_def dedup_step_def
  sorted_desc_def create_chunks_def create_chunk_def hit_def char_tokenizer_def count_tokens_def
  determine_priority_def is_definition_type_def effective_score_def chunks_overlap_def
  chunk_contains_def truncate_chunk_def order_for_prompt_def slice_to_def Let_def

text \<open>
  C1 (as amended). Whenever \<^verbatim>\<open>assemble\<close> returns, the token counts of the chunks of the
  assembled context add up to at most the available budget \<open>max_tokens - reserve_tokens\<close>,
  or to 0 when that budget is negative, and the reported total is that sum. Every chunk
  of the context is a candidate taken whole or the truncation of a candidate that did
  not fit, and then its token count is the remaining budget (the available budget less
  the tokens of the other chunks of the context), which exceeded 100. At most one chunk
  is truncated, and with it the context fills the available budget exactly.
\<close>

theorem assemble_budget_law:
  assumes "assemble self search_results query include_definitions include_file_context = Inr ctx"
  shows "sum_list (map cc_token_count (ac_chunks ctx))
           \<le> max 0 (max_tokens self - reserve_tokens self)
         \<and> ac_total_tokens ctx = sum_list (map cc_token_count (ac_chunks ctx))
         \<and> (\<forall>c \<in> set (ac_chunks ctx).
               whole_or_truncated self (create_chunks self search_results query)
                 (ac_chunks ctx) c)
         \<and> (ac_truncated_chunks ctx = 0
              \<and> set (ac_chunks ctx) \<subseteq> set (create_chunks self search_results query)
            \<or> ac_truncated_chunks ctx = 1
              \<and> sum_list (map cc_token_count (ac_chunks ctx))
                  = max_tokens self - reserve_tokens self)"
proof -
  let ?created = "create_chunks self search_results query"
  let ?sorted = "sorted_desc effective_score (deduplicate ?created)"
  let ?av = "max_tokens self - reserve_tokens self"
  obtain u sel t where loop: "budget_loop self ?av ?sorted (0, [], 0) = (u, sel, t)"
    by (cases "budget_loop self ?av ?sorted (0, [], 0)") auto
  have ab: "apply_budget self ?sorted =
      (if max_tokens self = 0 then Inl ZeroDivisionError
       else Inr (sel, \<lparr> st_total_tokens = u,
                   st_budget_used = real_of_int u / real_of_int (max_tokens self),
                   st_files = length (remdups (map cc_file_path sel)),
                   st_symbols = length (remdups (map cc_symbol_name
                                  (filter (\<lambda>c. truthy (cc_symbol_name c)) sel))),
                   st_truncated = t \<rparr>))"
    by (simp add: apply_budget_def Let_def loop)
  have asm: "assemble self search_results query include_definitions include_file_context =
      (case apply_budget self ?sorted of
         Inl e \<Rightarrow> Inl e
       | Inr (selected_chunks, stats) \<Rightarrow>
           Inr \<lparr> ac_chunks = order_for_prompt selected_chunks,
                 ac_total_tokens = st_total_tokens stats,
                 ac_budget_used = st_budget_used stats,
                 ac_files_included = st_files stats,
                 ac_symbols_included = st_symbols stats,
                 ac_truncated_chunks = st_truncated stats \<rparr>)"
    by (simp add: assemble_def add_definitions_def Let_def)
  from assms have nz: "max_tokens self \<noteq> 0"
    unfolding asm ab by (auto split: if_splits)
  from assms nz have chunks: "ac_chunks ctx = order_for_prompt sel"
    and tot: "ac_total_tokens ctx = u" and tr: "ac_truncated_chunks ctx = t"
    unfolding asm ab by auto
  have bound: "u \<le> max 0 ?av"
    using loop by (rule budget_loop_used_bound) simp
  have sub: "set ?sorted \<subseteq> set ?created"
    using set_deduplicate [of ?created] by (simp add: sorted_desc_def)
  have start: "budget_loop self ?av ?sorted (sum_list (map cc_token_count []), [], 0) = (u, sel, t)"
    using loop by simp
  have empty: "set [] \<subseteq> set ?created" by simp
  note inv = budget_loop_invariant [OF start sub empty]
  from inv have usum: "u = sum_list (map cc_token_count sel)" by (rule conjunct1)
  from inv have shape: "(t = 0 \<and> set sel \<subseteq> set ?created)
            \<or> (t = 1 \<and> u = ?av
               \<and> (\<exists>pre c0. sel = pre @ [truncate_chunk self c0 (?av - sum_list (map cc_token_count pre))]
                     \<and> set pre \<subseteq> set ?created \<and> c0 \<in> set ?created
                     \<and> 100 < ?av - sum_list (map cc_token_count pre)
                     \<and> ?av - sum_list (map cc_token_count pre) < cc_token_count c0))"
    by (rule conjunct2)
  have total: "sum_list (map cc_token_count (order_for_prompt sel)) = u"
    by (simp add: sum_order_for_prompt usum)
  have prov: "whole_or_truncated self ?created (order_for_prompt sel) c" if "c \<in> set sel" for c
    using shape
  proof
    assume "t = 0 \<and> set sel \<subseteq> set ?created"
    with that show ?thesis by (auto simp: whole_or_truncated_def)
  next
    assume "t = 1 \<and> u = ?av
               \<and> (\<exists>pre c0. sel = pre @ [truncate_chunk self c0 (?av - sum_list (map cc_token_count pre))]
                     \<and> set pre \<subseteq> set ?created \<and> c0 \<in> set ?created
                     \<and> 100 < ?av - sum_list (map cc_token_count pre)
                     \<and> ?av - sum_list (map cc_token_count pre) < cc_token_count c0)"
    then obtain pre c0 where uav: "u = ?av"
      and sel: "sel = pre @ [truncate_chunk self c0 (?av - sum_list (map cc_token_count pre))]"
      and pre: "set pre \<subseteq> set ?created" and c0: "c0 \<in> set ?created"
      and big: "100 < ?av - sum_list (map cc_token_count pre)"
      and less: "?av - sum_list (map cc_token_count pre) < cc_token_count c0"
      by blast
    let ?r = "?av - sum_list (map cc_token_count pre)"
    from that sel have "c \<in> set pre \<or> c = truncate_chunk self c0 ?r" by auto
    then show ?thesis
    proof
      assume "c \<in> set pre"
      with pre show ?thesis by (auto simp: whole_or_truncated_def)
    next
      assume c: "c = truncate_chunk self c0 ?r"
      have rem: "?av - (sum_list (map cc_token_count (order_for_prompt sel)) - cc_token_count c) = ?r"
        unfolding total uav by (simp add: c)
      show ?thesis
        unfolding whole_or_truncated_def rem Let_def
        using c c0 big less by auto
    qed
  qed
  have stat: "t = 0 \<and> set (order_for_prompt sel) \<subseteq> set ?created
            \<or> t = 1 \<and> sum_list (map cc_token_count (order_for_prompt sel)) = ?av"
    using shape total by (auto simp: set_order_for_prompt)
  show ?thesis
    using bound prov stat by (simp add: chunks tot tr total usum set_order_for_prompt)
qed

text \<open>
  With \<open>max_tokens = 1000\<close> and \<open>reserve_tokens = 100\<close>, a 400-token hit is taken whole
  and a 700-token hit is cut to the remaining 500 tokens.
\<close>

theorem assemble_budget_law_witness:
  "assemble assembler_1000_100 hits_400_700 ''query'' True True
     = Inr (projr (assemble assembler_1000_100 hits_400_700 ''query'' True True))
   \<and> map cc_token_count
         (ac_chunks (projr (assemble assembler_1000_100 hits_400_700 ''query'' True True)))
       = [400, 500]
   \<and> sum_list (map cc_token_count
         (ac_chunks (projr (assemble assembler_1000_100 hits_400_700 ''query'' True True))))
       \<le> max 0 (max_tokens assembler_1000_100 - reserve_tokens assembler_1000_100)
   \<and> list_all
         (whole_or_truncated assembler_1000_100
            (create_chunks assembler_1000_100 hits_400_700 ''query'')
            (ac_chunks (projr (assemble assembler_1000_100 hits_400_700 ''query'' True True))))
         (ac_chunks (projr (assemble assembler_1000_100 hits_400_700 ''query'' True True)))
   \<and> ac_truncated_chunks (projr (assemble assembler_1000_100 hits_400_700 ''query'' True True))
       = 1"
proof -
  have nz: "max_tokens assembler_1000_100 \<noteq> 0" by (simp add: assembler_1000_100_def)
  have ret: "assemble assembler_1000_100 hits_400_700 ''query'' True True
     = Inr (projr (assemble assembler_1000_100 hits_400_700 ''query'' True True))"
    using nz by (rule assemble_returns)
  have counts: "map cc_token_count
         (ac_chunks (projr (assemble assembler_1000_100 hits_400_700 ''query'' True True)))
       = [400, 500]"
    by (simp add: assembler_eval hits_400_700_def assembler_1000_100_def)
  have trunc: "ac_truncated_chunks
                 (projr (assemble assembler_1000_100 hits_400_700 ''query'' True True)) = 1"
    by (simp add: assembler_eval hits_400_700_def assembler_1000_100_def)
  from assemble_budget_law [OF ret] ret counts trunc show ?thesis by (simp add: list_all_iff)
qed

text \<open>
  The law as the specification states it, for every configuration, fails when the reserve
  exceeds the maximum: the context is empty, and its sum 0 is above the negative budget.
\<close>

theorem budget_law_counterexample:
  "assemble assembler_500_1000 hits_400_700 ''query'' True True
     = Inr \<lparr> ac_chunks = [], ac_total_tokens = 0, ac_budget_used = 0,
             ac_files_included = 0, ac_symbols_included = 0, ac_truncated_chunks = 0 \<rparr>
   \<and> \<not> sum_list (map cc_token_count
           (ac_chunks (projr (assemble assembler_500_1000 hits_400_700 ''query'' True True))))
         \<le> max_tokens assembler_500_1000 - reserve_tokens assembler_500_1000"
  by (simp add: assembler_eval hits_400_700_def assembler_500_1000_def)

text \<open>
  C10. When the hits before \<open>c\<close> leave the packer below its budget, \<open>c\<close> does not fit
  and the remaining budget is at most 100, then \<open>c\<close> alone is passed over: the loop goes
  on with the hits after \<open>c\<close> from the same state, and a next hit \<open>d\<close> that fits is
  selected whole. Once the used tokens have reached the budget, the loop ends whatever
  hits remain.
\<close>

theorem budget_skip_then_continue:
  assumes "budget_loop self available pre (0, [], 0) = (used, selected, truncated_count)"
      and "used < available"
      and "cc_token_count c > available - used"
      and "available - used \<le> 100"
  shows "budget_loop self available (pre @ c # post) (0, [], 0)
           = budget_loop self available post (used, selected, truncated_count)
         \<and> (cc_token_count d \<le> available - used \<longrightarrow>
              budget_loop self available (pre @ c # d # post) (0, [], 0)
                = budget_loop self available post
                    (used + cc_token_count d, selected @ [d], truncated_count))
         \<and> (\<forall>used' selected' truncated' rest.
               available \<le> used' \<longrightarrow>
               budget_loop self available rest (used', selected', truncated')
                 = (used', selected', truncated'))"
  using assms by (simp add: budget_loop_append budget_loop_stopped Let_def)

text \<open>
  Budget 900 and hits of 400, 400, 400 and 50 tokens: the third is passed over, the
  fourth is selected, and the selection is not a prefix of the hit list.
\<close>

theorem budget_skip_then_continue_witness:
  "budget_loop assembler_1000_100 900 [packed ''a.py'' 0.9 400, packed ''b.py'' 0.8 400] (0, [], 0)
     = (800, [packed ''a.py'' 0.9 400, packed ''b.py'' 0.8 400], 0)
   \<and> budget_loop assembler_1000_100 900
         [packed ''a.py'' 0.9 400, packed ''b.py'' 0.8 400, packed ''c.py'' 0.7 400,
          packed ''d.py'' 0.65 50] (0, [], 0)
       = (850, [packed ''a.py'' 0.9 400, packed ''b.py'' 0.8 400, packed ''d.py'' 0.65 50], 0)
   \<and> \<not> prefix [packed ''a.py'' 0.9 400, packed ''b.py'' 0.8 400, packed ''d.py'' 0.65 50]
         [packed ''a.py'' 0.9 400, packed ''b.py'' 0.8 400, packed ''c.py'' 0.7 400,
          packed ''d.py'' 0.65 50]"
proof -
  have pre: "budget_loop assembler_1000_100 900
               [packed ''a.py'' 0.9 400, packed ''b.py'' 0.8 400] (0, [], 0)
             = (800, [packed ''a.py'' 0.9 400, packed ''b.py'' 0.8 400], 0)"
    by (simp add: packed_def)
  have tc: "cc_token_count (packed ''c.py'' 0.7 400) > 900 - 800" by (simp add: packed_def)
  have td: "cc_token_count (packed ''d.py'' 0.65 50) \<le> 900 - 800" by (simp add: packed_def)
  have np: "\<not> prefix [packed ''a.py'' 0.9 400, packed ''b.py'' 0.8 400, packed ''d.py'' 0.65 50]
         [packed ''a.py'' 0.9 400, packed ''b.py'' 0.8 400, packed ''c.py'' 0.7 400,
          packed ''d.py'' 0.65 50]"
    by (simp add: packed_def)
  from budget_skip_then_continue
         [of assembler_1000_100 900 "[packed ''a.py'' 0.9 400, packed ''b.py'' 0.8 400]"
             800 "[packed ''a.py'' 0.9 400, packed ''b.py'' 0.8 400]" 0
             "packed ''c.py'' 0.7 400" "[]" "packed ''d.py'' 0.65 50", OF pre _ tc] td
  have "budget_loop assembler_1000_100 900
         [packed ''a.py'' 0.9 400, packed ''b.py'' 0.8 400, packed ''c.py'' 0.7 400,
          packed ''d.py'' 0.65 50] (0, [], 0)
       = (850, [packed ''a.py'' 0.9 400, packed ''b.py'' 0.8 400, packed ''d.py'' 0.65 50], 0)"
    by (simp add: packed_def)
  with pre np show ?thesis by simp
qed

subsection \<open>Deduplication in the assembler\<close>

text \<open>
  C4, the assembler's half. Hits A (lines 1-5), B (lines 10-15) and C (lines 1-20) of one
  file, in descending effective score: C overlaps A, the first kept chunk, contains it
  and replaces it, without being compared with B. The assembled context holds B and C,
  whose line ranges overlap.
\<close>

theorem assemble_keeps_overlapping_chunks:
  "map chunk_span (ac_chunks (projr (assemble assembler_1000_100 hits_overlap ''query'' True True)))
     = [(''f.py'', 10, 15), (''f.py'', 1, 20)]
   \<and> chunks_overlap
         (ac_chunks (projr (assemble assembler_1000_100 hits_overlap ''query'' True True)) ! 0)
         (ac_chunks (projr (assemble assembler_1000_100 hits_overlap ''query'' True True)) ! 1)"
  by (simp add: assembler_eval chunk_span_def hits_overlap_def assembler_1000_100_def)

section \<open>Properties of the hybrid search engine\<close>

lemma length_slice_to: "0 \<le> n \<Longrightarrow> int (length (slice_to n xs)) \<le> n"
  by (simp add: slice_to_def)

lemma set_slice_to: "set (slice_to n xs) \<subseteq> set xs"
  by (auto simp: slice_to_def dest: in_set_takeD)

lemma search_Inr_shape:
  assumes "search self query collection = Inr results"
  shows "\<exists>rs. results = slice_to (sq_limit query) (filter (\<lambda>r. sr_score r \<ge> sq_min_score query) rs)"
  using assms by (auto simp: search_def Let_def split: sum.splits)


lemmas search_eval =
  search_def semantic_search_def keyword_search_def hybrid_search_def exact_search_def
  build_filters_def default_query_def convert_results_def convert_point_def stub_point_def
  deduplicate_results_def overlaps_with_def slice_to_def Let_def

text \<open>
  C9 (as amended). When \<^verbatim>\<open>search\<close> returns, it returns at most \<open>limit\<close> results
  provided \<open>limit\<close> is not negative; and for every query, whatever its limit, each
  returned result has a score of at least \<open>min_score\<close>: the threshold is applied to the
  results after fusion and rerank, and what falls below it is dropped.
\<close>

theorem search_limit_and_min_score:
  assumes "search self query collection = Inr results"
  shows "(0 \<le> sq_limit query \<longrightarrow> int (length results) \<le> sq_limit query)
         \<and> (\<forall>r \<in> set results. sr_score r \<ge> sq_min_score query)"
proof -
  from assms obtain rs where
    res: "results = slice_to (sq_limit query) (filter (\<lambda>r. sr_score r \<ge> sq_min_score query) rs)"
    using search_Inr_shape by blast
  have "int (length results) \<le> sq_limit query" if "0 \<le> sq_limit query"
    unfolding res using that by (rule length_slice_to)
  moreover have "\<forall>r \<in> set results. sr_score r \<ge> sq_min_score query"
    unfolding res using set_slice_to by fastforce
  ultimately show ?thesis by simp
qed

text \<open>
  A semantic query with limit 2 against three stored points gets the first two, both
  above the threshold 0.5; with limit \<open>-1\<close> the two results returned are above the
  threshold as well.
\<close>

theorem search_limit_and_min_score_witness:
  "search engine_no_sparse semantic_query ''code_semantic''
     = Inr (projr (search engine_no_sparse semantic_query ''code_semantic''))
   \<and> 0 \<le> sq_limit semantic_query
   \<and> map sr_id (projr (search engine_no_sparse semantic_query ''code_semantic'')) = [''p1'', ''p2'']
   \<and> int (length (projr (search engine_no_sparse semantic_query ''code_semantic'')))
       \<le> sq_limit semantic_query
   \<and> list_all (\<lambda>r. sr_score r \<ge> sq_min_score semantic_query)
         (projr (search engine_no_sparse semantic_query ''code_semantic''))
   \<and> search engine_no_sparse negative_limit_query ''code_semantic''
       = Inr (projr (search engine_no_sparse negative_limit_query ''code_semantic''))
   \<and> list_all (\<lambda>r. sr_score r \<ge> sq_min_score negative_limit_query)
         (projr (search engine_no_sparse negative_limit_query ''code_semantic''))"
proof -
  have ret: "search engine_no_sparse semantic_query ''code_semantic''
     = Inr (projr (search engine_no_sparse semantic_query ''code_semantic''))"
    by (simp add: search_eval engine_no_sparse_def stub_client_def semantic_query_def)
  have lim: "0 \<le> sq_limit semantic_query"
    by (simp add: semantic_query_def default_query_def)
  have ids: "map sr_id (projr (search engine_no_sparse semantic_query ''code_semantic''))
       = [''p1'', ''p2'']"
    by (simp add: search_eval engine_no_sparse_def stub_client_def semantic_query_def)
  have neg: "search engine_no_sparse negative_limit_query ''code_semantic''
       = Inr (projr (search engine_no_sparse negative_limit_query ''code_semantic''))"
    by (simp add: search_eval engine_no_sparse_def stub_client_def negative_limit_query_def)
  from search_limit_and_min_score [OF ret] search_limit_and_min_score [OF neg] ret lim ids neg
  show ?thesis by (simp add: list_all_iff)
qed

text \<open>
  With \<open>limit = -1\<close> the final slice \<^verbatim>\<open>results[:-1]\<close> drops the last of three
  results: two results are returned, more than the limit.
\<close>

theorem search_limit_counterexample:
  "\<not> isl (search engine_no_sparse negative_limit_query ''code_semantic'')
   \<and> map sr_id (projr (search engine_no_sparse negative_limit_query ''code_semantic''))
       = [''p1'', ''p2'']
   \<and> \<not> int (length (projr (search engine_no_sparse negative_limit_query ''code_semantic'')))
         \<le> sq_limit negative_limit_query"
  by (simp add: search_eval engine_no_sparse_def stub_client_def negative_limit_query_def)

text \<open>
  C3 (as amended). In Keyword mode without a sparse-embedding function, \<^verbatim>\<open>search\<close> raises
  the ValueError of \<^verbatim>\<open>_keyword_search\<close>: it neither falls back to Semantic search nor
  returns a list.
\<close>

theorem keyword_without_sparse_raises:
  assumes "sq_mode query = KEYWORD"
      and "sparse_embed self = None"
  shows "search self query collection
           = Inl (ValueError ''Sparse embedding function not configured'')"
  using assms by (simp add: search_def keyword_search_def Let_def)


theorem keyword_without_sparse_raises_witness:
  "sq_mode keyword_query = KEYWORD
   \<and> sparse_embed engine_no_sparse = None
   \<and> search engine_no_sparse keyword_query ''code_symbols''
       = Inl (ValueError ''Sparse embedding function not configured'')"
proof -
  have m: "sq_mode keyword_query = KEYWORD" by (simp add: keyword_query_def)
  have s: "sparse_embed engine_no_sparse = None" by (simp add: engine_no_sparse_def)
  from keyword_without_sparse_raises [OF m s, of "''code_symbols''"] m s show ?thesis by simp
qed

text \<open>
  The same engine answers the same query in Semantic mode with three results, and in
  Keyword mode with the error: no fallback takes place.
\<close>

theorem keyword_fallback_counterexample:
  "search engine_no_sparse keyword_query ''code_semantic''
     = Inl (ValueError ''Sparse embedding function not configured'')
   \<and> map sr_id (projr (search engine_no_sparse (keyword_query \<lparr> sq_mode := SEMANTIC \<rparr>)
                            ''code_semantic''))
       = [''p1'', ''p2'', ''p3'']"
  by (simp add: search_eval engine_no_sparse_def stub_client_def keyword_query_def)

subsection \<open>Deduplication in the search engine\<close>

text \<open>
  C4, the search engine's half: with \<open>deduplicate\<close> set, no two results of the returned
  list overlap.
\<close>

lemma overlaps_with_sym: "overlaps_with a b = overlaps_with b a"
  by (auto simp: overlaps_with_def)

lemma dedup_results_loop_disjoint:
  "sorted_wrt (\<lambda>a b. \<not> overlaps_with a b) acc
     \<Longrightarrow> sorted_wrt (\<lambda>a b. \<not> overlaps_with a b) (dedup_results_loop acc rs)"
proof (induction rs arbitrary: acc)
  case Nil
  then show ?case by simp
next
  case (Cons r rs)
  show ?case
  proof (cases "list_ex (\<lambda>existing. overlaps_with r existing) acc")
    case True
    with Cons show ?thesis by (simp add: Let_def)
  next
    case False
    then have "\<forall>e \<in> set acc. \<not> overlaps_with e r"
      by (auto simp: list_ex_iff overlaps_with_sym)
    with Cons.prems have "sorted_wrt (\<lambda>a b. \<not> overlaps_with a b) (acc @ [r])"
      by (simp add: sorted_wrt_append)
    then have "sorted_wrt (\<lambda>a b. \<not> overlaps_with a b) (dedup_results_loop (acc @ [r]) rs)"
      by (rule Cons.IH)
    with False show ?thesis by (simp add: Let_def)
  qed
qed

lemma deduplicate_results_disjoint:
  "sorted_wrt (\<lambda>a b. \<not> overlaps_with a b) (deduplicate_results rs)"
  using dedup_results_loop_disjoint [of "[]" rs] by (simp add: deduplicate_results_def)

lemma sorted_wrt_slice_to: "sorted_wrt P xs \<Longrightarrow> sorted_wrt P (slice_to n xs)"
  by (simp add: slice_to_def sorted_wrt_take)

lemma search_dedup_law:
  assumes "search self query collection = Inr results" and "sq_deduplicate query"
  shows "sorted_wrt (\<lambda>a b. \<not> overlaps_with a b) results"
  using assms
  by (auto simp: search_def Let_def sorted_wrt_slice_to sorted_wrt_filter deduplicate_results_disjoint
           split: sum.splits)

lemma search_dedup_law_nth:
  assumes "search self query collection = Inr results" and "sq_deduplicate query"
      and "i < j" and "j < length results"
  shows "\<not> overlaps_with (results ! i) (results ! j)"
  using search_dedup_law [OF assms(1,2)] assms(3,4) by (simp add: sorted_wrt_iff_nth_less)

section \<open>Properties of the rank fusion in MultiLevelSearch\<close>

lemma dict_get_update:
  "dict_get (AList.update k v d) k' dflt = (if k' = k then v else dict_get d k' dflt)"
  by (simp add: dict_get_def update_conv')

lemma keys_update: "fst ` set (AList.update k v d) = insert k (fst ` set d)"
  using dom_update [of k v d] by simp

lemma set_update_subset: "set (AList.update k v d) \<subseteq> insert (k, v) (set d)"
  by (induction d) auto

lemma keyed_update: "keyed a \<Longrightarrow> result_key r = k \<Longrightarrow> keyed (AList.update k r a)"
  unfolding keyed_def using set_update_subset [of k r a] by auto

lemma merge_symbols_scores:
  "merge_symbols rank symbols (d, a) = (d', a')
     \<Longrightarrow> dict_get d' key 0 = dict_get d key 0 + 1.2 * rank_sum rank symbols key"
proof (induction symbols arbitrary: rank d a)
  case Nil
  then show ?case by simp
next
  case (Cons r rs)
  let ?k = "result_key r"
  let ?d1 = "AList.update ?k (dict_get d ?k 0 + 1.0 / (60 + real rank) * 1.2) d"
  from Cons.prems have "merge_symbols (rank + 1) rs (?d1, AList.update ?k r a) = (d', a')"
    by (simp add: Let_def)
  from Cons.IH [OF this]
  have "dict_get d' key 0 = dict_get ?d1 key 0 + 1.2 * rank_sum (rank + 1) rs key" .
  then show ?case by (simp add: dict_get_update algebra_simps)
qed

lemma merge_semantic_scores:
  "merge_semantic rank semantic (d, a) = (d', a')
     \<Longrightarrow> dict_get d' key 0 = dict_get d key 0 + rank_sum rank semantic key"
proof (induction semantic arbitrary: rank d a)
  case Nil
  then show ?case by simp
next
  case (Cons r rs)
  let ?k = "result_key r"
  let ?d1 = "AList.update ?k (dict_get d ?k 0 + 1.0 / (60 + real rank)) d"
  let ?a1 = "if ?k \<notin> fst ` set a then AList.update ?k r a else a"
  from Cons.prems have "merge_semantic (rank + 1) rs (?d1, ?a1) = (d', a')"
    by (simp add: Let_def)
  from Cons.IH [OF this]
  have "dict_get d' key 0 = dict_get ?d1 key 0 + rank_sum (rank + 1) rs key" .
  then show ?case by (simp add: dict_get_update algebra_simps)
qed

lemma merge_symbols_keyed:
  "merge_symbols rank symbols (d, a) = (d', a') \<Longrightarrow> keyed a \<Longrightarrow> keyed a'"
proof (induction symbols arbitrary: rank d a)
  case Nil
  then show ?case by simp
next
  case (Cons r rs)
  let ?k = "result_key r"
  let ?d1 = "AList.update ?k (dict_get d ?k 0 + 1.0 / (60 + real rank) * 1.2) d"
  from Cons.prems(1) have "merge_symbols (rank + 1) rs (?d1, AList.update ?k r a) = (d', a')"
    by (simp add: Let_def)
  moreover from Cons.prems(2) have "keyed (AList.update ?k r a)" by (simp add: keyed_update)
  ultimately show ?case by (rule Cons.IH)
qed

lemma merge_semantic_keyed:
  "merge_semantic rank semantic (d, a) = (d', a') \<Longrightarrow> keyed a \<Longrightarrow> keyed a'"
proof (induction semantic arbitrary: rank d a)
  case Nil
  then show ?case by simp
next
  case (Cons r rs)
  let ?k = "result_key r"
  let ?d1 = "AList.update ?k (dict_get d ?k 0 + 1.0 / (60 + real rank)) d"
  let ?a1 = "if ?k \<notin> fst ` set a then AList.update ?k r a else a"
  from Cons.prems(1) have "merge_semantic (rank + 1) rs (?d1, ?a1) = (d', a')"
    by (simp add: Let_def)
  moreover from Cons.prems(2) have "keyed ?a1" by (simp add: keyed_update)
  ultimately show ?case by (rule Cons.IH)
qed

lemma result_key_score_update [simp]: "result_key (r \<lparr> sr_score := s \<rparr>) = result_key r"
  by (simp add: result_key_def)

lemma merge_results_score_of:
  assumes "r \<in> set (merge_results symbols semantic limit)"
  shows "sr_score r = 1.2 * rank_sum 0 symbols (result_key r) + rank_sum 0 semantic (result_key r)"
proof -
  obtain d1 a1 where m1: "merge_symbols 0 symbols ([], []) = (d1, a1)"
    by (cases "merge_symbols 0 symbols ([], [])") auto
  obtain d2 a2 where m2: "merge_semantic 0 semantic (d1, a1) = (d2, a2)"
    by (cases "merge_semantic 0 semantic (d1, a1)") auto
  have "keyed []" by (simp add: keyed_def)
  with m1 have "keyed a1" by (rule merge_symbols_keyed)
  with m2 have k2: "keyed a2" by (rule merge_semantic_keyed)
  have sc: "dict_get d2 key 0 = 1.2 * rank_sum 0 symbols key + rank_sum 0 semantic key" for key
    using merge_symbols_scores [OF m1, of key] merge_semantic_scores [OF m2, of key]
    by (simp add: dict_get_def)
  from assms have "\<exists>key res. map_of a2 key = Some res \<and> r = res \<lparr> sr_score := dict_get d2 key 0 \<rparr>"
    by (auto simp: merge_results_def m1 m2 Let_def split: option.splits) metis
  then obtain key res where
    look: "map_of a2 key = Some res" and r: "r = res \<lparr> sr_score := dict_get d2 key 0 \<rparr>"
    by blast
  from look have "(key, res) \<in> set a2" by (rule map_of_SomeD)
  with k2 have "result_key res = key" by (auto simp: keyed_def)
  then have "result_key r = key" by (simp add: r)
  moreover have "sr_score r = dict_get d2 key 0" by (simp add: r)
  ultimately show ?thesis using sc by simp
qed

lemma sorted_desc_sorted: "sorted_wrt (\<lambda>a b. f b \<le> f a) (sorted_desc f xs)"
proof -
  have "sorted (map (\<lambda>x. - f x) (sort_key (\<lambda>x. - f x) xs))" by (rule sorted_sort_key)
  then have "sorted_wrt (\<lambda>a b. - f a \<le> - f b) (sort_key (\<lambda>x. - f x) xs)"
    by (simp add: sorted_map)
  then show ?thesis by (simp add: sorted_desc_def)
qed

lemma sorted_wrt_slice_to_keys: "sorted_wrt P xs \<Longrightarrow> sorted_wrt P (slice_to n xs)"
  by (simp add: slice_to_def sorted_wrt_take)

lemma scored_lookup_sorted:
  "sorted_wrt (\<lambda>a b. f b \<le> f a) ks
     \<Longrightarrow> sorted_wrt (\<lambda>a b. sr_score b \<le> sr_score a)
           (concat (map (\<lambda>key. case map_of a key of
                                  None \<Rightarrow> []
                                | Some result \<Rightarrow> [result \<lparr> sr_score := f key \<rparr>]) ks))"
proof (induction ks)
  case Nil
  show ?case by simp
next
  case (Cons k ks)
  let ?g = "\<lambda>key. case map_of a key of None \<Rightarrow> [] | Some result \<Rightarrow> [result \<lparr> sr_score := f key \<rparr>]"
  from Cons.prems have rest: "sorted_wrt (\<lambda>a b. f b \<le> f a) ks" and hd: "\<forall>k' \<in> set ks. f k' \<le> f k"
    by simp_all
  have tail: "sorted_wrt (\<lambda>a b. sr_score b \<le> sr_score a) (concat (map ?g ks))"
    using rest by (rule Cons.IH)
  have bound: "\<forall>r \<in> set (concat (map ?g ks)). sr_score r \<le> f k"
    using hd by (auto split: option.splits)
  show ?case
  proof (cases "map_of a k")
    case None
    with tail show ?thesis by simp
  next
    case (Some res)
    with tail bound show ?thesis by simp
  qed
qed

lemma length_scored_lookup:
  "length (concat (map (\<lambda>key. case map_of a key of
                                 None \<Rightarrow> []
                               | Some result \<Rightarrow> [result \<lparr> sr_score := f key \<rparr>]) ks))
     \<le> length ks"
  by (induction ks) (auto split: option.splits)

text \<open>
  C6 (as amended). \<^verbatim>\<open>_merge_results\<close> fuses its two ranked lists by a weighted
  reciprocal-rank sum with \<open>K = 60\<close> and ranks counted from 0: the score of each returned
  result is 1.2 times the sum of \<open>1 / (60 + i)\<close> over the positions \<open>i\<close> of its key in the
  symbol list plus the sum of \<open>1 / (60 + j)\<close> over its positions \<open>j\<close> in the semantic
  list. The results come in descending fused score, and there are at most \<open>limit\<close> of them
  when \<open>limit\<close> is not negative.
\<close>

theorem merge_results_weighted_rrf:
  "(\<forall>r \<in> set (merge_results symbols semantic limit).
      sr_score r = 1.2 * rank_sum 0 symbols (result_key r) + rank_sum 0 semantic (result_key r))
   \<and> sorted_wrt (\<lambda>a b. sr_score b \<le> sr_score a) (merge_results symbols semantic limit)
   \<and> (0 \<le> limit \<longrightarrow> int (length (merge_results symbols semantic limit)) \<le> limit)"
proof -
  obtain d a where m: "merge_semantic 0 semantic (merge_symbols 0 symbols ([], [])) = (d, a)"
    by (cases "merge_semantic 0 semantic (merge_symbols 0 symbols ([], []))") auto
  let ?keys = "slice_to limit (sorted_desc (\<lambda>k. dict_get d k 0) (map fst d))"
  have mr: "merge_results symbols semantic limit =
      concat (map (\<lambda>key. case map_of a key of
                            None \<Rightarrow> []
                          | Some result \<Rightarrow> [result \<lparr> sr_score := dict_get d key 0 \<rparr>]) ?keys)"
    by (simp add: merge_results_def m Let_def)
  have "sorted_wrt (\<lambda>x y. dict_get d y 0 \<le> dict_get d x 0) ?keys"
    by (intro sorted_wrt_slice_to_keys sorted_desc_sorted)
  then have srt: "sorted_wrt (\<lambda>a b. sr_score b \<le> sr_score a) (merge_results symbols semantic limit)"
    unfolding mr by (rule scored_lookup_sorted)
  have len: "int (length (merge_results symbols semantic limit)) \<le> limit" if "0 \<le> limit"
  proof -
    have "length (merge_results symbols semantic limit) \<le> length ?keys"
      unfolding mr by (rule length_scored_lookup)
    also have "int (length ?keys) \<le> limit" using that by (simp add: slice_to_def)
    finally show ?thesis by simp
  qed
  show ?thesis using merge_results_score_of srt len by blast
qed


lemma key_doc: "result_key (doc name) = name @ ''.py:1''"
  by (simp add: result_key_def doc_def str_int_def str_nat.simps)

lemmas dict_eval = AList.update.simps map_of.simps fst_conv snd_conv list.inject char.inject
  option.case option.simps prod.inject append.simps if_True if_False simp_thms image_insert
  image_empty list.set insert_iff empty_iff

lemma merge_dense_then_sparse:
  "merge_semantic 0 sparse_ranking (merge_symbols 0 dense_ranking ([], [])) =
     ([(''B.py:1'', 1.2 / 60 + 1 / 61), (''A.py:1'', 1.2 / 61 + 1 / 60), (''C.py:1'', 1.2 / 62),
       (''D.py:1'', 1.2 / 63), (''E.py:1'', 1.2 / 64 + 1 / 62), (''F.py:1'', 1 / 63),
       (''G.py:1'', 1 / 64)],
      [(''B.py:1'', doc ''B''), (''A.py:1'', doc ''A''), (''C.py:1'', doc ''C''),
       (''D.py:1'', doc ''D''), (''E.py:1'', doc ''E''), (''F.py:1'', doc ''F''),
       (''G.py:1'', doc ''G'')])"
  apply (simp only: dense_ranking_def sparse_ranking_def list.map merge_symbols.simps
           merge_semantic.simps Let_def key_doc dict_get_def)
  apply (simp only: dict_eval)
  apply simp
  done

lemma merge_sparse_then_dense:
  "merge_semantic 0 dense_ranking (merge_symbols 0 sparse_ranking ([], [])) =
     ([(''A.py:1'', 1.2 / 60 + 1 / 61), (''B.py:1'', 1.2 / 61 + 1 / 60), (''E.py:1'', 1.2 / 62 + 1 / 64),
       (''F.py:1'', 1.2 / 63), (''G.py:1'', 1.2 / 64), (''C.py:1'', 1 / 62),
       (''D.py:1'', 1 / 63)],
      [(''A.py:1'', doc ''A''), (''B.py:1'', doc ''B''), (''E.py:1'', doc ''E''),
       (''F.py:1'', doc ''F''), (''G.py:1'', doc ''G''), (''C.py:1'', doc ''C''),
       (''D.py:1'', doc ''D'')])"
  apply (simp only: dense_ranking_def sparse_ranking_def list.map merge_symbols.simps
           merge_semantic.simps Let_def key_doc dict_get_def)
  apply (simp only: dict_eval)
  apply simp
  done

lemma merged_dense_sparse:
  "merge_results dense_ranking sparse_ranking 2 =
     [(doc ''B'') \<lparr> sr_score := 1.2 / 60 + 1 / 61 \<rparr>, (doc ''A'') \<lparr> sr_score := 1.2 / 61 + 1 / 60 \<rparr>]"
  apply (simp only: merge_results_def merge_dense_then_sparse prod.case Let_def list.map fst_conv)
  apply (simp add: sorted_desc_def dict_get_def slice_to_def)
  done

lemma merged_sparse_dense:
  "merge_results sparse_ranking dense_ranking 2 =
     [(doc ''A'') \<lparr> sr_score := 1.2 / 60 + 1 / 61 \<rparr>, (doc ''B'') \<lparr> sr_score := 1.2 / 61 + 1 / 60 \<rparr>]"
  apply (simp only: merge_results_def merge_sparse_then_dense prod.case Let_def list.map fst_conv)
  apply (simp add: sorted_desc_def dict_get_def slice_to_def)
  done

text \<open>
  The rankings of the specification's example, as symbol list and semantic list: B comes
  first with \<open>1.2/60 + 1/61\<close>, A second with \<open>1.2/61 + 1/60\<close>.
\<close>

theorem merge_results_weighted_rrf_witness:
  "merge_results dense_ranking sparse_ranking 2 =
     [(doc ''B'') \<lparr> sr_score := 1.2 / 60 + 1 / 61 \<rparr>, (doc ''A'') \<lparr> sr_score := 1.2 / 61 + 1 / 60 \<rparr>]
   \<and> 1.2 / 61 + 1 / 60
       = 1.2 * rank_sum 0 dense_ranking (result_key (doc ''A''))
         + rank_sum 0 sparse_ranking (result_key (doc ''A''))
   \<and> sorted_wrt (\<lambda>a b. sr_score b \<le> sr_score a) (merge_results dense_ranking sparse_ranking 2)
   \<and> int (length (merge_results dense_ranking sparse_ranking 2)) \<le> 2"
  using merge_results_weighted_rrf [of dense_ranking sparse_ranking 2]
  by (simp add: merged_dense_sparse)

text \<open>
  The example as the specification states it: A does not score \<open>1/61 + 1/62\<close>, whichever
  of the two rankings is passed as the boosted symbol list, and with the dense ranking
  first the fused top 2 is B, A.
\<close>

theorem rrf_example_counterexample:
  "map sr_id (merge_results dense_ranking sparse_ranking 2) = [''B'', ''A'']
   \<and> map sr_score (merge_results dense_ranking sparse_ranking 2)
       = [1.2 / 60 + 1 / 61, 1.2 / 61 + 1 / 60]
   \<and> map sr_id (merge_results sparse_ranking dense_ranking 2) = [''A'', ''B'']
   \<and> map sr_score (merge_results sparse_ranking dense_ranking 2)
       = [1.2 / 60 + 1 / 61, 1.2 / 61 + 1 / 60]
   \<and> (1.2 / 61 + 1 / 60 :: real) \<noteq> 1 / 61 + 1 / 62
   \<and> (1.2 / 60 + 1 / 61 :: real) \<noteq> 1 / 61 + 1 / 62"
  by (simp add: merged_dense_sparse merged_sparse_dense doc_def)

section \<open>Properties of the incremental indexer\<close>

subsection \<open>Calls that leave the disk alone\<close>

lemma store_only_refl: "store_only w w"
  by (simp add: store_only_def)

lemma store_only_trans: "store_only w w1 \<Longrightarrow> store_only w1 w2 \<Longrightarrow> store_only w w2"
  by (auto simp: store_only_def)

lemma store_only_upsert_semantic: "store_only w (upsert_semantic ps w)"
  by (simp add: store_only_def upsert_semantic_def record_event_def)

lemma store_only_upsert_symbols: "store_only w (upsert_symbols ps w)"
  by (simp add: store_only_def upsert_symbols_def record_event_def)

lemma store_only_delete: "store_only w (snd (delete_file_chunks p w))"
  by (simp add: store_only_def delete_file_chunks_def record_event_def Let_def)

lemma store_only_rename: "store_only w (snd (rename_file_chunks old new w))"
  by (cases old)
     (simp_all add: store_only_def rename_file_chunks_def record_event_def upsert_semantic_def Let_def)

lemma store_only_embed_loop: "store_only w (snd (batch_embed_loop self bs acc w))"
proof (induction bs arbitrary: acc w)
  case Nil
  show ?case by (simp add: store_only_refl)
next
  case (Cons b bs)
  let ?w1 = "w \<lparr> call_log := call_log w @ map Embedded b \<rparr>"
  have s1: "store_only w ?w1"
    by (simp add: store_only_def list_all_iff)
  show ?case
  proof (cases "collect (embedder self) b")
    case (Inl e)
    with s1 show ?thesis by (simp add: Let_def)
  next
    case (Inr vs)
    have "store_only ?w1 (snd (batch_embed_loop self bs (acc @ vs) ?w1))" by (rule Cons.IH)
    with s1 have "store_only w (snd (batch_embed_loop self bs (acc @ vs) ?w1))"
      by (rule store_only_trans)
    with Inr show ?thesis by (simp add: Let_def)
  qed
qed

lemma store_only_index_file: "store_only w (snd (index_file self p w))"
proof (cases "files w p")
  case None
  then show ?thesis by (simp add: index_file_def store_only_refl)
next
  case (Some content)
  let ?w1 = "record_event (Chunked p) w"
  have s1: "store_only w ?w1" by (simp add: store_only_def record_event_def)
  show ?thesis
  proof (cases "chunker self (join_path (repo_path self) p) content")
    case (Inl e)
    with Some s1 show ?thesis by (simp add: index_file_def Let_def)
  next
    case (Inr chunks)
    show ?thesis
    proof (cases "chunks = []")
      case True
      with Some Inr s1 show ?thesis by (simp add: index_file_def Let_def)
    next
      case False
      obtain r w2 where be: "batch_embed self (map ck_content chunks) ?w1 = (r, w2)"
        by (cases "batch_embed self (map ck_content chunks) ?w1") auto
      have "store_only ?w1 w2"
        using store_only_embed_loop [of ?w1 self "embed_batches (map ck_content chunks)" "[]"] be
        by (simp add: batch_embed_def)
      with s1 have s2: "store_only w w2" by (rule store_only_trans)
      show ?thesis
      proof (cases r)
        case (Inl e)
        with Some Inr False be s2 show ?thesis by (simp add: index_file_def Let_def)
      next
        case (Inr embeddings)
        let ?points = "map (make_point w2 p (dict_get SUPPORTED_EXTENSIONS
                         (path_suffix (join_path (repo_path self) p)) ''unknown'')) (zip chunks embeddings)"
        let ?w3 = "upsert_semantic ?points w2"
        have s3: "store_only w ?w3" using s2 store_only_upsert_semantic by (rule store_only_trans)
        have s4: "store_only w (upsert_symbols sp ?w3)" for sp
          using s3 store_only_upsert_symbols by (rule store_only_trans)
        from Some \<open>chunker self (join_path (repo_path self) p) content = Inr chunks\<close> False be Inr s3 s4
        show ?thesis by (simp add: index_file_def Let_def)
      qed
    qed
  qed
qed

lemma store_only_process_change:
  "store_only w (snd (snd (process_change self state change (nif, stats, w))))"
proof (cases "ch_change_type change")
  case ADDED
  obtain r w1 where ix: "index_file self (ch_path change) w = (r, w1)"
    by (cases "index_file self (ch_path change) w") auto
  have "store_only w w1" using store_only_index_file [of w self "ch_path change"] ix by simp
  with ADDED ix show ?thesis by (cases r) (simp_all add: process_change_def Let_def)
next
  case MODIFIED
  obtain d w1 where del: "delete_file_chunks (ch_path change) w = (d, w1)"
    by (cases "delete_file_chunks (ch_path change) w") auto
  obtain r w2 where ix: "index_file self (ch_path change) w1 = (r, w2)"
    by (cases "index_file self (ch_path change) w1") auto
  have "store_only w w1" using store_only_delete [of w "ch_path change"] del by simp
  moreover have "store_only w1 w2" using store_only_index_file [of w1 self "ch_path change"] ix by simp
  ultimately have "store_only w w2" by (rule store_only_trans)
  with MODIFIED del ix show ?thesis
    by (cases r) (simp_all add: process_change_def Let_def store_only_refl)
next
  case DELETED
  obtain d w1 where del: "delete_file_chunks (ch_path change) w = (d, w1)"
    by (cases "delete_file_chunks (ch_path change) w") auto
  have "store_only w w1" using store_only_delete [of w "ch_path change"] del by simp
  with DELETED del show ?thesis by (simp add: process_change_def)
next
  case RENAMED
  obtain r w1 where rn: "rename_file_chunks (ch_old_path change) (ch_path change) w = (r, w1)"
    by (cases "rename_file_chunks (ch_old_path change) (ch_path change) w") auto
  have "store_only w w1"
    using store_only_rename [of w "ch_old_path change" "ch_path change"] rn by simp
  with RENAMED rn show ?thesis by (cases r) (simp_all add: process_change_def Let_def)
next
  case COPIED
  then show ?thesis by (simp add: process_change_def store_only_refl)
qed

lemma store_only_changes:
  "store_only w (snd (snd (foldl (\<lambda>st change. process_change self state change st) (nif, stats, w) changes)))"
proof (induction changes arbitrary: nif stats w)
  case Nil
  show ?case by (simp add: store_only_refl)
next
  case (Cons c cs)
  obtain nif1 stats1 w1 where pc: "process_change self state c (nif, stats, w) = (nif1, stats1, w1)"
    by (cases "process_change self state c (nif, stats, w)") auto
  have "store_only w w1" using store_only_process_change [of w self state c nif stats] pc by simp
  moreover have "store_only w1 (snd (snd (foldl (\<lambda>st change. process_change self state change st) (nif1, stats1, w1) cs)))"
    by (rule Cons.IH)
  ultimately show ?case by (simp add: pc store_only_trans)
qed

lemma store_only_full_steps:
  "store_only w (snd (snd (foldl (\<lambda>st file_path. full_index_step self file_path st) (ix, stats, w) fs)))"
proof (induction fs arbitrary: ix stats w)
  case Nil
  show ?case by (simp add: store_only_refl)
next
  case (Cons f fs)
  obtain r w1 where st: "index_file self f w = (r, w1)" by (cases "index_file self f w") auto
  have s1: "store_only w w1" using store_only_index_file [of w self f] st by simp
  obtain ix1 stats1 where fs1: "full_index_step self f (ix, stats, w) = (ix1, stats1, w1)"
    using st by (cases r) (simp_all add: full_index_step_def)
  have "store_only w1 (snd (snd (foldl (\<lambda>st file_path. full_index_step self file_path st) (ix1, stats1, w1) fs)))"
    by (rule Cons.IH)
  with s1 show ?case by (simp add: fs1 store_only_trans)
qed

lemma call_log_delete:
  "call_log (snd (delete_file_chunks p w))
     = call_log w @ [Counted ''code_semantic'' p, Deleted ''code_semantic'' p, Deleted ''code_symbols'' p]"
  by (simp add: delete_file_chunks_def record_event_def Let_def)

lemma call_log_index_file_prefix: "prefix (call_log w) (call_log (snd (index_file self p w)))"
  using store_only_index_file [of w self p] by (auto simp: store_only_def)

text \<open>
  C5. For a change reported Modified, when the recomputed content hash equals the hash
  recorded in the loaded state, processing the change returns the dictionary of indexed
  files, the statistics and the world as they were: no chunker call, no embedding call,
  no store call, the same hash entry. When the hashes differ, the world is that of
  \<^verbatim>\<open>_index_file\<close> run after \<^verbatim>\<open>_delete_file_chunks\<close>: the calls start with the count and
  the two deletions for the file, and on success the new hash is recorded.
\<close>

theorem modified_reindexed_only_on_new_hash:
  assumes "ch_change_type change = MODIFIED"
  shows
    "(map_of (indexed_files state) (ch_path change)
        = Some (compute_file_hash self w (ch_path change))
      \<longrightarrow> process_change self state change (new_indexed_files, stats, w)
            = (new_indexed_files, stats, w))
     \<and> (map_of (indexed_files state) (ch_path change)
          \<noteq> Some (compute_file_hash self w (ch_path change))
        \<longrightarrow> snd (snd (process_change self state change (new_indexed_files, stats, w)))
              = snd (index_file self (ch_path change) (snd (delete_file_chunks (ch_path change) w)))
            \<and> prefix (call_log w @ [Counted ''code_semantic'' (ch_path change),
                                     Deleted ''code_semantic'' (ch_path change),
                                     Deleted ''code_symbols'' (ch_path change)])
                 (call_log (snd (snd (process_change self state change (new_indexed_files, stats, w)))))
            \<and> (\<not> isl (fst (index_file self (ch_path change)
                              (snd (delete_file_chunks (ch_path change) w))))
               \<longrightarrow> fst (process_change self state change (new_indexed_files, stats, w))
                     = AList.update (ch_path change) (compute_file_hash self w (ch_path change))
                         new_indexed_files))"
proof -
  let ?p = "ch_path change"
  obtain d w1 where del: "delete_file_chunks ?p w = (d, w1)"
    by (cases "delete_file_chunks ?p w") auto
  obtain r w2 where ix: "index_file self ?p w1 = (r, w2)"
    by (cases "index_file self ?p w1") auto
  have same: "process_change self state change (new_indexed_files, stats, w)
                = (new_indexed_files, stats, w)"
    if "map_of (indexed_files state) ?p = Some (compute_file_hash self w ?p)"
    using that assms by (simp add: process_change_def Let_def)
  have pre: "prefix (call_log w @ [Counted ''code_semantic'' ?p, Deleted ''code_semantic'' ?p,
                                   Deleted ''code_symbols'' ?p]) (call_log w2)"
    using call_log_index_file_prefix [of w1 self ?p] call_log_delete [of ?p w] del ix by simp
  have diff: "snd (snd (process_change self state change (new_indexed_files, stats, w))) = w2
      \<and> (\<not> isl r \<longrightarrow> fst (process_change self state change (new_indexed_files, stats, w))
                       = AList.update ?p (compute_file_hash self w ?p) new_indexed_files)"
    if "map_of (indexed_files state) ?p \<noteq> Some (compute_file_hash self w ?p)"
    using that assms del ix by (cases r) (auto simp: process_change_def Let_def)
  show ?thesis using same diff pre del ix by simp
qed


text \<open>A pass whose changes are all of this kind leaves everything as it was.\<close>

lemma unchanged_changes_noop:
  assumes "\<forall>c \<in> set changes. ch_change_type c = MODIFIED
             \<and> map_of (indexed_files state) (ch_path c) = Some (compute_file_hash self w (ch_path c))"
  shows "foldl (\<lambda>st change. process_change self state change st) (nif, stats, w) changes
           = (nif, stats, w)"
  using assms
proof (induction changes)
  case Nil
  show ?case by simp
next
  case (Cons c cs)
  then have "process_change self state c (nif, stats, w) = (nif, stats, w)"
    by (simp add: process_change_def Let_def)
  with Cons show ?case by simp
qed

lemma path_suffix_demo: "path_suffix ''/repo/a.py'' = ''.py''"
  by (simp add: path_suffix_def)

lemma embed_batches_one: "embed_batches [t] = [[t]]"
  by (simp add: embed_batches.simps)

lemmas indexer_eval =
  index_file_def demo_indexer_def demo_chunk_def join_path_def path_suffix_demo batch_embed_def
  embed_batches_one make_point_def is_symbol_chunk_def upsert_semantic_def upsert_symbols_def
  upsert_points_def record_event_def dict_get_def SUPPORTED_EXTENSIONS_def has_path_def
  compute_file_hash_def Let_def

lemma indexed_world_eval:
  "indexed_world =
     demo_world
       \<lparr> code_semantic :=
           [\<lparr> pt_id = ''function_0123456789abcdef'', pt_vector = [1],
              pt_payload = \<lparr> pp_content = ''def f(): return 1'', pp_file_path = ''a.py'',
                             pp_start_line = 0, pp_end_line = 1, pp_chunk_type = ''function'',
                             pp_symbol_name = Some ''f'', pp_parent_symbol = None,
                             pp_docstring = None, pp_signature = Some ''def f()'',
                             pp_language = ''python'', pp_tokens = 4, pp_git_hash = ''c1'' \<rparr> \<rparr>],
         code_symbols :=
           [\<lparr> pt_id = ''function_0123456789abcdef'', pt_vector = [1],
              pt_payload = \<lparr> pp_content = ''def f(): return 1'', pp_file_path = ''a.py'',
                             pp_start_line = 0, pp_end_line = 1, pp_chunk_type = ''function'',
                             pp_symbol_name = Some ''f'', pp_parent_symbol = None,
                             pp_docstring = None, pp_signature = Some ''def f()'',
                             pp_language = ''python'', pp_tokens = 4, pp_git_hash = ''c1'' \<rparr> \<rparr>],
         call_log :=
           [Chunked ''a.py'', Embedded ''def f(): return 1'',
            Upserted ''code_semantic'' [''function_0123456789abcdef''],
            Upserted ''code_symbols'' [''function_0123456789abcdef'']] \<rparr>"
  by (simp add: indexed_world_def indexer_eval demo_world_def)

text \<open>
  \<^verbatim>\<open>a.py\<close> reported Modified with its indexed content: nothing happens. With a new
  content: its chunks are deleted, then it is chunked, embedded and upserted.
\<close>

theorem modified_reindexed_only_on_new_hash_witness:
  "ch_change_type touch_change = MODIFIED
   \<and> map_of (indexed_files demo_state) (ch_path touch_change)
       = Some (compute_file_hash demo_indexer indexed_world (ch_path touch_change))
   \<and> process_change demo_indexer demo_state touch_change
         (indexed_files demo_state, empty_update_stats, indexed_world)
       = (indexed_files demo_state, empty_update_stats, indexed_world)
   \<and> map_of (indexed_files demo_state) (ch_path touch_change)
       \<noteq> Some (compute_file_hash demo_indexer edited_world (ch_path touch_change))
   \<and> call_log (snd (snd (process_change demo_indexer demo_state touch_change
                          (indexed_files demo_state, empty_update_stats, edited_world))))
       = call_log indexed_world
         @ [Counted ''code_semantic'' ''a.py'', Deleted ''code_semantic'' ''a.py'',
            Deleted ''code_symbols'' ''a.py'', Chunked ''a.py'', Embedded ''def f(): return 2'',
            Upserted ''code_semantic'' [''function_0123456789abcdef''],
            Upserted ''code_symbols'' [''function_0123456789abcdef'']]
   \<and> fst (process_change demo_indexer demo_state touch_change
            (indexed_files demo_state, empty_update_stats, edited_world))
       = [(''a.py'', ''h:def f(): return 2'')]"
proof -
  have m: "ch_change_type touch_change = MODIFIED" by (simp add: touch_change_def)
  have same: "map_of (indexed_files demo_state) (ch_path touch_change)
       = Some (compute_file_hash demo_indexer indexed_world (ch_path touch_change))"
    by (simp add: indexed_world_eval demo_world_def demo_state_def touch_change_def
          compute_file_hash_def demo_indexer_def)
  have differs: "map_of (indexed_files demo_state) (ch_path touch_change)
       \<noteq> Some (compute_file_hash demo_indexer edited_world (ch_path touch_change))"
    by (simp add: edited_world_def demo_state_def touch_change_def compute_file_hash_def
          demo_indexer_def)
  have log: "call_log (snd (index_file demo_indexer (ch_path touch_change)
                 (snd (delete_file_chunks (ch_path touch_change) edited_world))))
       = call_log indexed_world
         @ [Counted ''code_semantic'' ''a.py'', Deleted ''code_semantic'' ''a.py'',
            Deleted ''code_symbols'' ''a.py'', Chunked ''a.py'', Embedded ''def f(): return 2'',
            Upserted ''code_semantic'' [''function_0123456789abcdef''],
            Upserted ''code_symbols'' [''function_0123456789abcdef'']]"
    by (simp add: edited_world_def indexed_world_eval demo_world_def touch_change_def
          delete_file_chunks_def indexer_eval)
  have ok: "\<not> isl (fst (index_file demo_indexer (ch_path touch_change)
                 (snd (delete_file_chunks (ch_path touch_change) edited_world))))"
    by (simp add: edited_world_def indexed_world_eval demo_world_def touch_change_def
          delete_file_chunks_def indexer_eval)
  have h2: "compute_file_hash demo_indexer edited_world (ch_path touch_change) = ''h:def f(): return 2''"
    by (simp add: edited_world_def touch_change_def compute_file_hash_def demo_indexer_def)
  from modified_reindexed_only_on_new_hash
         [OF m, of demo_state demo_indexer indexed_world "indexed_files demo_state" empty_update_stats]
       same
  have A: "process_change demo_indexer demo_state touch_change
         (indexed_files demo_state, empty_update_stats, indexed_world)
       = (indexed_files demo_state, empty_update_stats, indexed_world)"
    by simp
  from modified_reindexed_only_on_new_hash
         [OF m, of demo_state demo_indexer edited_world "indexed_files demo_state" empty_update_stats]
       differs ok
  have B: "snd (snd (process_change demo_indexer demo_state touch_change
                 (indexed_files demo_state, empty_update_stats, edited_world)))
             = snd (index_file demo_indexer (ch_path touch_change)
                 (snd (delete_file_chunks (ch_path touch_change) edited_world)))"
    and C: "fst (process_change demo_indexer demo_state touch_change
                 (indexed_files demo_state, empty_update_stats, edited_world))
             = AList.update (ch_path touch_change)
                 (compute_file_hash demo_indexer edited_world (ch_path touch_change))
                 (indexed_files demo_state)"
    by simp_all
  have C': "fst (process_change demo_indexer demo_state touch_change
                 (indexed_files demo_state, empty_update_stats, edited_world))
             = [(''a.py'', ''h:def f(): return 2'')]"
    unfolding C h2 by (simp add: demo_state_def touch_change_def)
  show ?thesis using m same A differs B log C' by simp
qed


lemma save_state_effect:
  "call_log (save_state self state w)
     = call_log w @ [WriteText (state_path self) (json_dumps self state)]
   \<and> disk (save_state self state w) = (disk w) (state_path self \<mapsto> json_dumps self state)"
  by (simp add: save_state_def save_state_ops_def record_event_def)

text \<open>
  C8 (as amended). \<^verbatim>\<open>_save_state\<close> is one direct \<^verbatim>\<open>write_text\<close> onto the state file: no
  temporary file, no replace. In an incremental and in a full pass it is the last call,
  and the only file-system call, of the pass: the state is persisted after the loop over
  the files has ended.
\<close>

theorem state_written_directly_after_pass:
  "call_log (save_state self state w)
     = call_log w @ [WriteText (state_path self) (json_dumps self state)]
   \<and> disk (save_state self state w) = (disk w) (state_path self \<mapsto> json_dumps self state)
   \<and> (\<exists>evs new_state.
         call_log (snd (incremental_update self state extensions w))
           = call_log w @ evs @ [WriteText (state_path self) (json_dumps self new_state)]
         \<and> list_all (\<lambda>ev. \<not> is_fs_op ev) evs
         \<and> disk (snd (incremental_update self state extensions w))
             = (disk w) (state_path self \<mapsto> json_dumps self new_state))
   \<and> (\<exists>evs new_state.
         call_log (snd (full_index self extensions w))
           = call_log w @ evs @ [WriteText (state_path self) (json_dumps self new_state)]
         \<and> list_all (\<lambda>ev. \<not> is_fs_op ev) evs
         \<and> disk (snd (full_index self extensions w))
             = (disk w) (state_path self \<mapsto> json_dumps self new_state))"
proof -
  let ?changes = "filter (\<lambda>c. list_ex (\<lambda>ext. endswith (ch_path c) ext) extensions)
                    (changes_since w (git_commit state))"
  obtain nif stats w1 where
    loop: "foldl (\<lambda>st change. process_change self state change st)
             (indexed_files state, empty_update_stats, w) ?changes = (nif, stats, w1)"
    by (cases "foldl (\<lambda>st change. process_change self state change st)
             (indexed_files state, empty_update_stats, w) ?changes") auto
  have "store_only w w1"
    using store_only_changes [of w self state "indexed_files state" empty_update_stats ?changes] loop
    by simp
  then obtain evs where evs: "call_log w1 = call_log w @ evs" "list_all (\<lambda>ev. \<not> is_fs_op ev) evs"
    and d1: "disk w1 = disk w"
    by (auto simp: store_only_def)
  let ?st = "\<lparr> git_commit = current_commit w1, indexed_files = nif, last_updated = clock w1,
               total_chunks = total_chunks state + chunks_added stats - chunks_deleted stats,
               total_files = int (length nif) \<rparr>"
  have inc: "snd (incremental_update self state extensions w) = save_state self ?st w1"
    by (simp add: incremental_update_def Let_def loop)
  have I: "\<exists>evs new_state.
         call_log (snd (incremental_update self state extensions w))
           = call_log w @ evs @ [WriteText (state_path self) (json_dumps self new_state)]
         \<and> list_all (\<lambda>ev. \<not> is_fs_op ev) evs
         \<and> disk (snd (incremental_update self state extensions w))
             = (disk w) (state_path self \<mapsto> json_dumps self new_state)"
    unfolding inc using evs d1 save_state_effect [of self ?st w1] by auto
  let ?fl = "get_all_tracked_files w extensions"
  obtain ix fstats w2 where
    floop: "foldl (\<lambda>st file_path. full_index_step self file_path st)
              ([], \<lparr> files_indexed = 0, chunks_created = 0, full_errors = [] \<rparr>, w) ?fl
            = (ix, fstats, w2)"
    by (cases "foldl (\<lambda>st file_path. full_index_step self file_path st)
              ([], \<lparr> files_indexed = 0, chunks_created = 0, full_errors = [] \<rparr>, w) ?fl") auto
  have "store_only w w2"
    using store_only_full_steps
            [of w self "[]" "\<lparr> files_indexed = 0, chunks_created = 0, full_errors = [] \<rparr>" ?fl] floop
    by simp
  then obtain evs2 where evs2: "call_log w2 = call_log w @ evs2" "list_all (\<lambda>ev. \<not> is_fs_op ev) evs2"
    and d2: "disk w2 = disk w"
    by (auto simp: store_only_def)
  let ?fst = "\<lparr> git_commit = current_commit w2, indexed_files = ix, last_updated = clock w2,
                total_chunks = chunks_created fstats, total_files = files_indexed fstats \<rparr>"
  have full: "snd (full_index self extensions w) = save_state self ?fst w2"
    by (simp add: full_index_def Let_def floop)
  have F: "\<exists>evs new_state.
         call_log (snd (full_index self extensions w))
           = call_log w @ evs @ [WriteText (state_path self) (json_dumps self new_state)]
         \<and> list_all (\<lambda>ev. \<not> is_fs_op ev) evs
         \<and> disk (snd (full_index self extensions w))
             = (disk w) (state_path self \<mapsto> json_dumps self new_state)"
    unfolding full using evs2 d2 save_state_effect [of self ?fst w2] by auto
  show ?thesis using save_state_effect [of self state w] I F by blast
qed

text \<open>
  Saving the state logs a single write onto the state file and no replace; interrupted
  after 7 characters it leaves \<^verbatim>\<open>commit=\<close> in the state file, neither the old content
  nor the new one.
\<close>

theorem atomic_save_counterexample:
  "call_log (save_state demo_indexer demo_state demo_world)
     = [WriteText ''/repo/.rag_index_state.json'' ''commit=c1'']
   \<and> \<not> list_ex is_replace (call_log (save_state demo_indexer demo_state demo_world))
   \<and> disk demo_world ''/repo/.rag_index_state.json'' = Some ''commit=c0''
   \<and> interrupted 7 (hd (save_state_ops demo_indexer demo_state)) (disk demo_world)
         ''/repo/.rag_index_state.json''
       = Some ''commit=''"
  by (simp add: save_state_def save_state_ops_def record_event_def demo_indexer_def demo_state_def
        demo_world_def state_path_def join_path_def STATE_FILE_def)

theorem state_written_directly_after_pass_witness:
  "call_log (save_state demo_indexer demo_state demo_world)
     = call_log demo_world
       @ [WriteText (state_path demo_indexer) (json_dumps demo_indexer demo_state)]
   \<and> state_path demo_indexer = ''/repo/.rag_index_state.json''
   \<and> json_dumps demo_indexer demo_state = ''commit=c1''"
  using state_written_directly_after_pass [of demo_indexer demo_state demo_world]
  by (simp add: demo_indexer_def demo_state_def state_path_def join_path_def STATE_FILE_def)

subsection \<open>Renamed files\<close>

text \<open>
  What holds of a rename in general: the collection \<^verbatim>\<open>code_symbols\<close> is not touched, no
  embedding call is made, and the hash recorded for the old path goes to the new path.
\<close>

lemma rename_keeps_symbol_collection:
  "code_symbols (snd (rename_file_chunks old_path new_path w)) = code_symbols w"
  by (cases old_path)
     (simp_all add: rename_file_chunks_def record_event_def upsert_semantic_def Let_def)

lemma rename_makes_no_embedding_call:
  "\<exists>evs. call_log (snd (rename_file_chunks old_path new_path w)) = call_log w @ evs
          \<and> \<not> list_ex is_embed_call evs"
  by (cases old_path)
     (simp_all add: rename_file_chunks_def record_event_def upsert_semantic_def Let_def)

lemma rename_carries_hash:
  assumes "ch_change_type change = RENAMED" and "ch_old_path change = Some old"
  shows "fst (process_change self state change (new_indexed_files, stats, w))
           = AList.update (ch_path change) (dict_get new_indexed_files old [])
               (dict_pop new_indexed_files old)"
  using assms
  by (simp add: process_change_def rename_file_chunks_def Let_def split: prod.splits sum.splits)

text \<open>
  C7 at a concrete store. \<^verbatim>\<open>a.py\<close>, indexed with one function chunk (a point in each of
  the two collections), is renamed to \<^verbatim>\<open>b.py\<close>: the point of \<^verbatim>\<open>code_semantic\<close> gets the new
  path, the point of \<^verbatim>\<open>code_symbols\<close> keeps the old one. The hash moves to \<^verbatim>\<open>b.py\<close> and the
  only calls are a scroll and an upsert.
\<close>

theorem rename_leaves_symbol_collection_stale:
  "map (pp_file_path \<circ> pt_payload)
     (code_semantic (snd (snd (process_change demo_indexer demo_state rename_change
                                 (indexed_files demo_state, empty_update_stats, renamed_world)))))
     = [''b.py'']
   \<and> map (pp_file_path \<circ> pt_payload)
       (code_symbols (snd (snd (process_change demo_indexer demo_state rename_change
                                  (indexed_files demo_state, empty_update_stats, renamed_world)))))
     = [''a.py'']
   \<and> fst (process_change demo_indexer demo_state rename_change
            (indexed_files demo_state, empty_update_stats, renamed_world))
     = [(''b.py'', ''h:def f(): return 1'')]
   \<and> call_log (snd (snd (process_change demo_indexer demo_state rename_change
                          (indexed_files demo_state, empty_update_stats, renamed_world))))
     = call_log renamed_world
       @ [Scrolled ''code_semantic'' ''a.py'',
          Upserted ''code_semantic'' [''function_0123456789abcdef'']]"
  by (simp add: process_change_def rename_file_chunks_def renamed_world_def indexed_world_eval
        demo_world_def demo_state_def rename_change_def dict_pop_def indexer_eval)

section \<open>Properties of the chunker\<close>

text \<open>
  The order in which a set of call names is listed is the one input of \<^verbatim>\<open>chunk_file\<close>
  that may differ between two runs on the same content. It reaches the field
  \<^verbatim>\<open>calls\<close> of function chunks and nothing else.
\<close>

lemma new_chunk_order [simp]:
  "new_chunk (self \<lparr> set_order := ord \<rparr>) = new_chunk self"
  by (intro ext) (simp add: new_chunk_def)

lemma block_chunk_order [simp]:
  "block_chunk (self \<lparr> set_order := ord \<rparr>) = block_chunk self"
  by (intro ext) (simp add: block_chunk_def)

lemma block_loop_order [simp]:
  "block_loop (self \<lparr> set_order := ord \<rparr>) file_path func_name start_row body_start_idx i ls st
     = block_loop self file_path func_name start_row body_start_idx i ls st"
proof (induction ls arbitrary: i st)
  case Nil
  show ?case by simp
next
  case (Cons l ls)
  obtain chunks cb ct bi where st: "st = (chunks, cb, ct, bi)" by (cases st) auto
  show ?case by (simp add: st Let_def Cons.IH)
qed

lemma split_large_function_order [simp]:
  "split_large_function (self \<lparr> set_order := ord \<rparr>) file_path n content func_name
     = split_large_function self file_path n content func_name"
  by (simp add: split_large_function_def Let_def split: prod.splits)

lemma create_file_chunk_order [simp]:
  "create_file_chunk (self \<lparr> set_order := ord \<rparr>) = create_file_chunk self"
  by (intro ext) (simp add: create_file_chunk_def)

lemma extract_module_chunk_order [simp]:
  "extract_module_chunk (self \<lparr> set_order := ord \<rparr>) = extract_module_chunk self"
  by (intro ext) (simp add: extract_module_chunk_def split: prod.splits)

lemma method_chunk_order [simp]:
  "method_chunk (self \<lparr> set_order := ord \<rparr>) = method_chunk self"
  by (intro ext) (simp add: method_chunk_def)

lemma class_chunks_order [simp]:
  "class_chunks (self \<lparr> set_order := ord \<rparr>) = class_chunks self"
  by (intro ext) (simp add: class_chunks_def Let_def)

lemma extract_classes_order [simp]:
  "extract_classes (self \<lparr> set_order := ord \<rparr>) = extract_classes self"
  by (intro ext) (simp add: extract_classes_def)

lemma function_chunks_order:
  "map_sum id (map erase_calls) (function_chunks (self \<lparr> set_order := ord \<rparr>) file_path content n)
     = map_sum id (map erase_calls) (function_chunks self file_path content n)"
  by (simp add: function_chunks_def extract_calls_def erase_calls_def Let_def split: sum.splits)

lemma collect_related:
  assumes "\<And>x. map_sum id (map e) (f x) = map_sum id (map e) (g x)"
  shows "map_sum id (map (map e)) (collect f xs) = map_sum id (map (map e)) (collect g xs)"
proof (induction xs)
  case Nil
  show ?case by simp
next
  case (Cons x xs)
  show ?case
  proof (cases "f x")
    case (Inl a)
    with assms [of x] have "g x = Inl a" by (cases "g x") auto
    with Inl show ?thesis by simp
  next
    case (Inr ys)
    with assms [of x] obtain zs where gx: "g x = Inr zs" and yz: "map e ys = map e zs"
      by (cases "g x") auto
    show ?thesis
    proof (cases "collect f xs")
      case (Inl a)
      with Cons.IH have "collect g xs = Inl a" by (cases "collect g xs") auto
      with Inl Inr gx show ?thesis by simp
    next
      case (Inr yss)
      note fr = Inr
      with Cons.IH obtain zss where cg: "collect g xs = Inr zss" and yzs: "map (map e) yss = map (map e) zss"
        by (cases "collect g xs") auto
      from \<open>f x = Inr ys\<close> fr gx cg yz yzs show ?thesis by simp
    qed
  qed
qed

lemma extract_functions_order:
  "map_sum id (map erase_calls) (extract_functions (self \<lparr> set_order := ord \<rparr>) file_path content r)
     = map_sum id (map erase_calls) (extract_functions self file_path content r)"
proof -
  have c: "map_sum id (map (map erase_calls))
             (collect (function_chunks (self \<lparr> set_order := ord \<rparr>) file_path content) (nd_children r))
         = map_sum id (map (map erase_calls))
             (collect (function_chunks self file_path content) (nd_children r))"
    by (rule collect_related) (rule function_chunks_order)
  show ?thesis
  proof (cases "collect (function_chunks self file_path content) (nd_children r)")
    case (Inl a)
    with c have "collect (function_chunks (self \<lparr> set_order := ord \<rparr>) file_path content) (nd_children r) = Inl a"
      by (cases "collect (function_chunks (self \<lparr> set_order := ord \<rparr>) file_path content) (nd_children r)") auto
    with Inl show ?thesis by (simp add: extract_functions_def)
  next
    case (Inr yss)
    with c obtain zss where
      z: "collect (function_chunks (self \<lparr> set_order := ord \<rparr>) file_path content) (nd_children r) = Inr zss"
      and e: "map (map erase_calls) zss = map (map erase_calls) yss"
      by (cases "collect (function_chunks (self \<lparr> set_order := ord \<rparr>) file_path content) (nd_children r)") auto
    have "map erase_calls (concat zss) = map erase_calls (concat yss)"
      using e by (simp add: map_concat)
    with Inr z show ?thesis by (simp add: extract_functions_def)
  qed
qed

lemma finalize_erase:
  "erase_calls c' = erase_calls c \<Longrightarrow>
     ck_id (finalize_chunk (self \<lparr> set_order := ord \<rparr>) c') = ck_id (finalize_chunk self c)
     \<and> ck_start_line (finalize_chunk (self \<lparr> set_order := ord \<rparr>) c') = ck_start_line (finalize_chunk self c)
     \<and> ck_end_line (finalize_chunk (self \<lparr> set_order := ord \<rparr>) c') = ck_end_line (finalize_chunk self c)"
proof -
  assume e: "erase_calls c' = erase_calls c"
  have f: "ck_file_path c' = ck_file_path c" "ck_symbol_name c' = ck_symbol_name c"
    "ck_content c' = ck_content c" "ck_chunk_type c' = ck_chunk_type c"
    "ck_start_line c' = ck_start_line c" "ck_end_line c' = ck_end_line c"
    using arg_cong [OF e, of ck_file_path] arg_cong [OF e, of ck_symbol_name]
      arg_cong [OF e, of ck_content] arg_cong [OF e, of ck_chunk_type]
      arg_cong [OF e, of ck_start_line] arg_cong [OF e, of ck_end_line]
    by (simp_all add: erase_calls_def)
  then show ?thesis by (simp add: finalize_chunk_def compute_id_def Let_def)
qed

lemma finalize_map_erase:
  "map erase_calls cs' = map erase_calls cs \<Longrightarrow>
     map ck_id (map (finalize_chunk (self \<lparr> set_order := ord \<rparr>)) cs') = map ck_id (map (finalize_chunk self) cs)
     \<and> map ck_start_line (map (finalize_chunk (self \<lparr> set_order := ord \<rparr>)) cs') = map ck_start_line (map (finalize_chunk self) cs)
     \<and> map ck_end_line (map (finalize_chunk (self \<lparr> set_order := ord \<rparr>)) cs') = map ck_end_line (map (finalize_chunk self) cs)"
proof (induction cs' arbitrary: cs)
  case Nil
  then show ?case by simp
next
  case (Cons c' cs')
  then obtain c cs0 where cs: "cs = c # cs0" and e: "erase_calls c' = erase_calls c"
    and r: "map erase_calls cs' = map erase_calls cs0"
    by (cases cs) auto
  from Cons.IH [OF r] finalize_erase [OF e, where self = self and ord = ord] show ?case by (simp add: cs)
qed

lemma finalized_id:
  "ck_id (finalize_chunk self c) =
     chunk_type_value (ck_chunk_type (finalize_chunk self c)) @ ''_''
       @ take 16 (sha256_hex self (ck_file_path (finalize_chunk self c) @ '':''
            @ str_opt (ck_symbol_name (finalize_chunk self c)) @ '':''
            @ ck_content (finalize_chunk self c)))"
  by (simp add: finalize_chunk_def compute_id_def Let_def)


text \<open>
  C2. When \<^verbatim>\<open>chunk_file\<close> returns, the id of each chunk is the value of the chunk kind,
  an underscore, and the first 16 digits of the hash of
  \<^verbatim>\<open>file_path:symbol_name:content\<close>, so equal kind, path, symbol name and content give
  equal ids; and a run on the same path and content under any other set order returns
  as well, with the same ids and the same start and end lines, chunk by chunk.
\<close>

theorem chunk_ids_and_spans_deterministic:
  assumes "chunk_file self file_path content = Inr chunks"
  shows "(\<forall>c \<in> set chunks.
            ck_id c = chunk_type_value (ck_chunk_type c) @ ''_''
                      @ take 16 (sha256_hex self (ck_file_path c @ '':''
                           @ str_opt (ck_symbol_name c) @ '':'' @ ck_content c)))
         \<and> (\<forall>ord. \<exists>chunks'.
               chunk_file (self \<lparr> set_order := ord \<rparr>) file_path content = Inr chunks'
               \<and> map ck_id chunks' = map ck_id chunks
               \<and> map ck_start_line chunks' = map ck_start_line chunks
               \<and> map ck_end_line chunks' = map ck_end_line chunks)"
proof -
  let ?r = "parser self content"
  let ?front = "[create_file_chunk self file_path content ?r]
                @ (case extract_module_chunk self file_path content ?r of Some c \<Rightarrow> [c] | None \<Rightarrow> [])
                @ extract_classes self file_path content ?r"
  from assms obtain fs where
    ef: "extract_functions self file_path content ?r = Inr fs"
    and chunks: "chunks = map (finalize_chunk self) (?front @ fs)"
    by (auto simp: chunk_file_def Let_def split: sum.splits)
  have ids: "\<forall>c \<in> set chunks.
            ck_id c = chunk_type_value (ck_chunk_type c) @ ''_''
                      @ take 16 (sha256_hex self (ck_file_path c @ '':''
                           @ str_opt (ck_symbol_name c) @ '':'' @ ck_content c))"
    unfolding chunks using finalized_id by auto
  have other: "\<exists>chunks'.
               chunk_file (self \<lparr> set_order := ord \<rparr>) file_path content = Inr chunks'
               \<and> map ck_id chunks' = map ck_id chunks
               \<and> map ck_start_line chunks' = map ck_start_line chunks
               \<and> map ck_end_line chunks' = map ck_end_line chunks" for ord
  proof -
    from extract_functions_order [where self = self and ord = ord and file_path = file_path and content = content and r = ?r] ef
    obtain fs' where ef': "extract_functions (self \<lparr> set_order := ord \<rparr>) file_path content ?r = Inr fs'"
      and e: "map erase_calls fs' = map erase_calls fs"
      by (cases "extract_functions (self \<lparr> set_order := ord \<rparr>) file_path content ?r") auto
    have cf: "chunk_file (self \<lparr> set_order := ord \<rparr>) file_path content
                = Inr (map (finalize_chunk (self \<lparr> set_order := ord \<rparr>)) (?front @ fs'))"
      by (simp add: chunk_file_def Let_def ef')
    have "map erase_calls (?front @ fs') = map erase_calls (?front @ fs)" using e by simp
    from finalize_map_erase [OF this, where self = self and ord = ord] cf show ?thesis
      unfolding chunks by blast
  qed
  from ids other show ?thesis by blast
qed

lemmas chunker_eval =
  chunk_file_def create_file_chunk_def extract_module_chunk_def extract_classes_def
  extract_functions_def function_chunks_def extract_calls_def collect_symbols_def collect_symbol_def
  extract_imports_def imports_of_def generate_file_description_def method_names_def
  get_node_name_def get_function_signature_def extract_docstring_def node_source_def substr_def
  new_chunk_def finalize_chunk_def compute_id_def estimate_tokens_def path_name_def
  MAX_CHUNK_TOKENS_def newline_def demo_chunker_def demo_tree_def src_node_def demo_source_def
  Let_def

lemma demo_chunks:
  "\<not> isl (chunk_file demo_chunker ''a.py'' demo_source)
   \<and> map ck_id (projr (chunk_file demo_chunker ''a.py'' demo_source))
       = [''file_a.py:None:File: '', ''module_a.py:None:import'', ''function_a.py:f:def f(x):'']
   \<and> map ck_start_line (projr (chunk_file demo_chunker ''a.py'' demo_source)) = [0, 0, 1]
   \<and> map ck_end_line (projr (chunk_file demo_chunker ''a.py'' demo_source)) = [2, 0, 2]
   \<and> map ck_calls (projr (chunk_file demo_chunker ''a.py'' demo_source)) = [[], [], [''g'', ''h'']]"
  by (simp add: chunker_eval)

lemma demo_chunks_reversed_calls:
  "map ck_calls (projr (chunk_file (demo_chunker \<lparr> set_order := rev \<rparr>) ''a.py'' demo_source))
     = [[], [], [''h'', ''g'']]"
  by (simp add: chunker_eval)

text \<open>
  The three chunks of the demo module; with the set order reversed the function chunk
  lists its calls as h, g, and ids and line spans are the same.
\<close>

theorem chunk_ids_and_spans_deterministic_witness:
  "chunk_file demo_chunker ''a.py'' demo_source
     = Inr (projr (chunk_file demo_chunker ''a.py'' demo_source))
   \<and> map ck_id (projr (chunk_file demo_chunker ''a.py'' demo_source))
       = [''file_a.py:None:File: '', ''module_a.py:None:import'', ''function_a.py:f:def f(x):'']
   \<and> map ck_calls (projr (chunk_file demo_chunker ''a.py'' demo_source)) = [[], [], [''g'', ''h'']]
   \<and> map ck_calls (projr (chunk_file (demo_chunker \<lparr> set_order := rev \<rparr>) ''a.py'' demo_source))
       = [[], [], [''h'', ''g'']]
   \<and> map ck_id (projr (chunk_file (demo_chunker \<lparr> set_order := rev \<rparr>) ''a.py'' demo_source))
       = map ck_id (projr (chunk_file demo_chunker ''a.py'' demo_source))
   \<and> map ck_start_line (projr (chunk_file (demo_chunker \<lparr> set_order := rev \<rparr>) ''a.py'' demo_source))
       = map ck_start_line (projr (chunk_file demo_chunker ''a.py'' demo_source))
   \<and> map ck_end_line (projr (chunk_file (demo_chunker \<lparr> set_order := rev \<rparr>) ''a.py'' demo_source))
       = map ck_end_line (projr (chunk_file demo_chunker ''a.py'' demo_source))"
proof -
  have ret: "chunk_file demo_chunker ''a.py'' demo_source
     = Inr (projr (chunk_file demo_chunker ''a.py'' demo_source))"
    using demo_chunks by simp
  from chunk_ids_and_spans_deterministic [OF ret]
  obtain chunks' where
    r: "chunk_file (demo_chunker \<lparr> set_order := rev \<rparr>) ''a.py'' demo_source = Inr chunks'"
    and e: "map ck_id chunks' = map ck_id (projr (chunk_file demo_chunker ''a.py'' demo_source))"
      "map ck_start_line chunks'
         = map ck_start_line (projr (chunk_file demo_chunker ''a.py'' demo_source))"
      "map ck_end_line chunks'
         = map ck_end_line (projr (chunk_file demo_chunker ''a.py'' demo_source))"
    by blast
  from r have p: "projr (chunk_file (demo_chunker \<lparr> set_order := rev \<rparr>) ''a.py'' demo_source) = chunks'"
    by simp
  show ?thesis using ret demo_chunks demo_chunks_reversed_calls e unfolding p by simp
qed

end
